theory Spec2Isabelle
  imports Main "HOL-Library.Word"
begin

section \<open>JavaScript strings\<close>

text \<open>
  A JavaScript string is a finite sequence of 16-bit code units. ASCII literals of the
  source are written \<open>js ''...''\<close>; the Japanese literals are given by their code units.
\<close>

type_synonym jschar = "16 word"
type_synonym jsstring = "jschar list"

definition js :: "string \<Rightarrow> jsstring" where
  "js s = map of_char s"

text \<open>
  WhiteSpace and LineTerminator of ECMAScript: the code units removed by
  \<^verbatim>\<open>String.prototype.trim\<close> and matched by \<^verbatim>\<open>\s\<close>.
\<close>

definition isWhiteSpace :: "jschar \<Rightarrow> bool" where
  "isWhiteSpace c = (c \<in> set [0x0009, 0x000A, 0x000B, 0x000C, 0x000D, 0x0020, 0x00A0,
     0x1680, 0x2000, 0x2001, 0x2002, 0x2003, 0x2004, 0x2005, 0x2006, 0x2007, 0x2008,
     0x2009, 0x200A, 0x2028, 0x2029, 0x202F, 0x205F, 0x3000, 0xFEFF])"

definition trim :: "jsstring \<Rightarrow> jsstring" where
  "trim s = rev (dropWhile isWhiteSpace (rev (dropWhile isWhiteSpace s)))"

definition LF :: jschar where
  "LF = 0x000A"

text \<open>\<^verbatim>\<open>s.split("\n")\<close>: never the empty array; the empty string gives one empty line.\<close>

fun split_lines :: "jsstring \<Rightarrow> jsstring list" where
  "split_lines [] = [[]]"
| "split_lines (c # cs) =
     (if c = LF then [] # split_lines cs
      else (case split_lines cs of
              [] \<Rightarrow> [[c]]
            | l # ls \<Rightarrow> (c # l) # ls))"

text \<open>\<^verbatim>\<open>xs.join(sep)\<close>.\<close>

fun join :: "jsstring \<Rightarrow> jsstring list \<Rightarrow> jsstring" where
  "join sep [] = []"
| "join sep [l] = l"
| "join sep (l # l' # ls) = l @ sep @ join sep (l' # ls)"

text \<open>\<^verbatim>\<open>Number.prototype.toString\<close> on an integer (as \<^verbatim>\<open>Date.now()\<close> returns).\<close>

fun digits :: "nat \<Rightarrow> jsstring" where
  "digits n = (if n < 10 then [0x0030 + of_nat n]
               else digits (n div 10) @ [0x0030 + of_nat (n mod 10)])"

definition Number_toString :: "int \<Rightarrow> jsstring" where
  "Number_toString n = (if n < 0 then 0x002D # digits (nat (- n)) else digits (nat n))"


section \<open>Data model of the frontend (App.tsx)\<close>

datatype Provider = ollama | lmstudio

record Settings =
  provider :: Provider
  endpoint :: jsstring
  model :: jsstring
  targetLang :: jsstring
  shortcut :: jsstring

record TranslateResponse =
  translated_text :: jsstring
  detected_lang :: "jsstring option"

record HistoryItem =
  item_id :: jsstring
  item_sourceText :: jsstring
  item_translatedText :: jsstring
  item_targetLang :: jsstring
  item_timestamp :: int

datatype Theme = light | dark

text \<open>The value held by \<^verbatim>\<open>explanationCacheRef\<close> when it is not null.\<close>

record ExplanationCache =
  cache_source :: jsstring
  cache_explanation :: jsstring

text \<open>
  The state of the component: one field for each \<^verbatim>\<open>useState\<close> and
  \<^verbatim>\<open>useRef\<close> of \<^verbatim>\<open>App\<close>.
\<close>

record AppState =
  sourceText :: jsstring
  translatedText :: jsstring
  isLoading :: bool
  error :: "jsstring option"
  showSettings :: bool
  settings :: Settings
  isCapturingShortcut :: bool
  autostartEnabled :: bool
  theme :: Theme
  history :: "HistoryItem list"
  showHistory :: bool
  explanationText :: jsstring
  isExplanationOpen :: bool
  isExplanationLoading :: bool
  explanationError :: "jsstring option"
  isCancelling :: bool
  isExplanationCancelling :: bool
  explanationCacheRef :: "ExplanationCache option"
  pendingTranslateRef :: bool

text \<open>The \<^verbatim>\<open>request\<close> objects passed to \<^verbatim>\<open>translate\<close> and \<^verbatim>\<open>explain\<close>.\<close>

record TranslateRequest =
  req_text :: jsstring
  req_source_lang :: jsstring
  req_target_lang :: jsstring
  req_provider :: Provider
  req_endpoint :: jsstring
  req_model :: jsstring

record ExplainRequest =
  ereq_source_text :: jsstring
  ereq_source_lang :: jsstring
  ereq_target_lang :: jsstring
  ereq_provider :: Provider
  ereq_endpoint :: jsstring
  ereq_model :: jsstring

text \<open>The backend commands the component invokes, with their arguments.\<close>

datatype Invoke =
    translate TranslateRequest
  | explain ExplainRequest
  | cancel_translation
  | cancel_explanation
  | update_shortcut jsstring
  | get_autostart_enabled
  | set_autostart_enabled bool
  | get_clipboard_text
  | set_clipboard_text jsstring

record KeyboardEvent =
  key :: jsstring
  code :: jsstring
  ctrlKey :: bool
  shiftKey :: bool
  altKey :: bool
  metaKey :: bool


section \<open>Streaming listeners\<close>

text \<open>\<^verbatim>\<open>listen("translation-chunk", ...)\<close>: \<^verbatim>\<open>setTranslatedText((prev) => prev + event.payload)\<close>.\<close>

definition on_translation_chunk :: "jsstring \<Rightarrow> AppState \<Rightarrow> AppState" where
  "on_translation_chunk payload s = s\<lparr>translatedText := translatedText s @ payload\<rparr>"

text \<open>\<^verbatim>\<open>listen("explanation-chunk", ...)\<close>.\<close>

definition on_explanation_chunk :: "jsstring \<Rightarrow> AppState \<Rightarrow> AppState" where
  "on_explanation_chunk payload s = s\<lparr>explanationText := explanationText s @ payload\<rparr>"


text \<open>
  \<^verbatim>\<open>listen("translation-cancelled", ...)\<close>. The message, given by its code
  units, is the Japanese sentence "the translation was cancelled".
\<close>

definition translation_cancelled_message :: jsstring where
  "translation_cancelled_message = [0x7FFB, 0x8A33, 0x304C, 0x30AD, 0x30E3, 0x30F3, 0x30BB,
     0x30EB, 0x3055, 0x308C, 0x307E, 0x3057, 0x305F]"

definition on_translation_cancelled :: "AppState \<Rightarrow> AppState" where
  "on_translation_cancelled s =
     s\<lparr>isLoading := False, isCancelling := False, error := Some translation_cancelled_message\<rparr>"

text \<open>
  \<^verbatim>\<open>listen("explanation-cancelled", ...)\<close>. The message, given by its code
  units, is the Japanese sentence "the explanation was cancelled".
\<close>

definition explanation_cancelled_message :: jsstring where
  "explanation_cancelled_message = [0x89E3, 0x8AAC, 0x304C, 0x30AD, 0x30E3, 0x30F3, 0x30BB,
     0x30EB, 0x3055, 0x308C, 0x307E, 0x3057, 0x305F]"

definition on_explanation_cancelled :: "AppState \<Rightarrow> AppState" where
  "on_explanation_cancelled s =
     s\<lparr>isExplanationLoading := False, isExplanationCancelling := False,
       explanationError := Some explanation_cancelled_message\<rparr>"


section \<open>History\<close>

text \<open>
  \<^verbatim>\<open>addToHistory\<close>. The two readings of \<^verbatim>\<open>Date.now()\<close> are parameters;
  \<^verbatim>\<open>[newItem, ...prev].slice(0, 50)\<close> is \<open>take 50 (newItem # prev)\<close>.
\<close>

definition addToHistory ::
    "int \<Rightarrow> int \<Rightarrow> jsstring \<Rightarrow> jsstring \<Rightarrow> jsstring \<Rightarrow> AppState \<Rightarrow> AppState" where
  "addToHistory now_id now_timestamp src translated lang s =
     (let newItem = \<lparr>item_id = Number_toString now_id, item_sourceText = src,
            item_translatedText = translated, item_targetLang = lang,
            item_timestamp = now_timestamp\<rparr>
      in s\<lparr>history := take 50 (newItem # history s)\<rparr>)"

definition handleSelectHistory :: "HistoryItem \<Rightarrow> AppState \<Rightarrow> AppState" where
  "handleSelectHistory item s =
     s\<lparr>sourceText := item_sourceText item,
       translatedText := item_translatedText item,
       settings := (settings s)\<lparr>targetLang := item_targetLang item\<rparr>,
       showHistory := False\<rparr>"

definition handleDeleteHistory :: "jsstring \<Rightarrow> AppState \<Rightarrow> AppState" where
  "handleDeleteHistory ident s = s\<lparr>history := filter (\<lambda>item. item_id item \<noteq> ident) (history s)\<rparr>"

definition handleClearHistory :: "AppState \<Rightarrow> AppState" where
  "handleClearHistory s = s\<lparr>history := []\<rparr>"


section \<open>Translation\<close>

text \<open>
  \<^verbatim>\<open>handleTranslate(textToTranslate?)\<close> is asynchronous. Its part before the
  \<^verbatim>\<open>await\<close> updates the state and issues the \<^verbatim>\<open>translate\<close> command; the part
  after it runs when the command has settled, with the \<^verbatim>\<open>text\<close> and
  \<^verbatim>\<open>settings\<close> of the call still in its closure.

  \<^verbatim>\<open>const text = textToTranslate || sourceText\<close>: an absent or empty argument
  gives the source text.
\<close>

definition translate_text :: "jsstring option \<Rightarrow> AppState \<Rightarrow> jsstring" where
  "translate_text textToTranslate s =
     (case textToTranslate of
        None \<Rightarrow> sourceText s
      | Some t \<Rightarrow> if t = [] then sourceText s else t)"

definition handleTranslate :: "jsstring option \<Rightarrow> AppState \<Rightarrow> AppState \<times> Invoke list" where
  "handleTranslate textToTranslate s =
     (let text = translate_text textToTranslate s in
      if trim text = [] then (s, [])
      else (s\<lparr>isLoading := True, error := None, translatedText := [],
              explanationText := [], isExplanationOpen := False,
              explanationError := None, explanationCacheRef := None\<rparr>,
            [translate \<lparr>req_text = text, req_source_lang = js ''auto'',
               req_target_lang = targetLang (settings s),
               req_provider = provider (settings s),
               req_endpoint = endpoint (settings s),
               req_model = model (settings s)\<rparr>]))"

text \<open>
  The continuation: \<open>Inr response\<close> when \<^verbatim>\<open>invoke\<close> resolved, \<open>Inl e\<close> when it
  rejected; \<^verbatim>\<open>finally\<close> clears the loading flag in both cases.
\<close>

definition handleTranslate_settled ::
    "jsstring \<Rightarrow> Settings \<Rightarrow> int \<Rightarrow> int \<Rightarrow> jsstring + TranslateResponse \<Rightarrow> AppState \<Rightarrow> AppState" where
  "handleTranslate_settled text settings0 now_id now_timestamp result s =
     (case result of
        Inr response \<Rightarrow>
          (if trim (translated_text response) \<noteq> []
           then addToHistory now_id now_timestamp text (translated_text response)
                  (targetLang settings0) s
           else s)\<lparr>isLoading := False\<rparr>
      | Inl e \<Rightarrow> s\<lparr>error := Some e, isLoading := False\<rparr>)"

text \<open>\<^verbatim>\<open>handleCancelTranslation\<close>, and its \<^verbatim>\<open>catch\<close> branch.\<close>

definition handleCancelTranslation :: "AppState \<Rightarrow> AppState \<times> Invoke list" where
  "handleCancelTranslation s = (s\<lparr>isCancelling := True\<rparr>, [cancel_translation])"

definition handleCancelTranslation_failed :: "AppState \<Rightarrow> AppState" where
  "handleCancelTranslation_failed s = s\<lparr>isCancelling := False\<rparr>"


section \<open>Explanation\<close>

text \<open>
  \<^verbatim>\<open>handleExplain\<close>: the cached explanation is shown again when its source is the
  current source text; otherwise the \<^verbatim>\<open>explain\<close> command is issued.
\<close>

definition explain_request :: "AppState \<Rightarrow> ExplainRequest" where
  "explain_request s =
     \<lparr>ereq_source_text = sourceText s, ereq_source_lang = js ''auto'',
      ereq_target_lang = targetLang (settings s),
      ereq_provider = provider (settings s),
      ereq_endpoint = endpoint (settings s),
      ereq_model = model (settings s)\<rparr>"

definition explain_start :: "AppState \<Rightarrow> AppState \<times> Invoke list" where
  "explain_start s =
     (s\<lparr>isExplanationLoading := True, explanationError := None, explanationText := []\<rparr>,
      [explain (explain_request s)])"

definition handleExplain :: "AppState \<Rightarrow> AppState \<times> Invoke list" where
  "handleExplain s =
     (case explanationCacheRef s of
        Some c \<Rightarrow>
          if cache_source c = sourceText s
          then (s\<lparr>explanationText := cache_explanation c\<rparr>, [])
          else explain_start s
      | None \<Rightarrow> explain_start s)"

text \<open>
  The continuation of \<^verbatim>\<open>handleExplain\<close>, with the \<^verbatim>\<open>sourceText\<close> of the call in
  its closure; the response object has the one field \<^verbatim>\<open>explanation\<close>.
\<close>

definition handleExplain_settled :: "jsstring \<Rightarrow> jsstring + jsstring \<Rightarrow> AppState \<Rightarrow> AppState" where
  "handleExplain_settled source0 result s =
     (case result of
        Inr explanation \<Rightarrow>
          s\<lparr>explanationCacheRef := Some \<lparr>cache_source = source0, cache_explanation = explanation\<rparr>,
            isExplanationLoading := False\<rparr>
      | Inl e \<Rightarrow> s\<lparr>explanationError := Some e, isExplanationLoading := False\<rparr>)"

text \<open>
  \<^verbatim>\<open>toggleExplanation\<close>: \<^verbatim>\<open>handleExplain\<close> is called when the card opens with no
  explanation text and a non-empty source text.
\<close>

definition toggleExplanation :: "AppState \<Rightarrow> AppState \<times> Invoke list" where
  "toggleExplanation s =
     (let willOpen = \<not> isExplanationOpen s;
          s1 = s\<lparr>isExplanationOpen := willOpen\<rparr>
      in if willOpen \<and> explanationText s = [] \<and> sourceText s \<noteq> []
         then handleExplain s1
         else (s1, []))"

definition handleCancelExplanation :: "AppState \<Rightarrow> AppState \<times> Invoke list" where
  "handleCancelExplanation s = (s\<lparr>isExplanationCancelling := True\<rparr>, [cancel_explanation])"

definition handleCancelExplanation_failed :: "AppState \<Rightarrow> AppState" where
  "handleCancelExplanation_failed s = s\<lparr>isExplanationCancelling := False\<rparr>"


section \<open>Regular expressions\<close>

text \<open>
  The regular expressions of the source use literals, character classes, \<^verbatim>\<open>.\<close>,
  \<^verbatim>\<open>\s\<close>, \<^verbatim>\<open>\d\<close>, sequence, alternation, \<^verbatim>\<open>?\<close>, \<^verbatim>\<open>*\<close>, \<^verbatim>\<open>+\<close> and the
  anchors \<^verbatim>\<open>^\<close> and \<^verbatim>\<open>$\<close> (no multiline flag: start and end of the string). They have
  no backreference and no lookaround, so \<^verbatim>\<open>test\<close> succeeds exactly when the string
  (anchored at both ends) or one of its prefixes (anchored at the start) is in the
  language; the matcher decides this by derivatives. \<open>Zero\<close> matches nothing and arises
  only in derivatives.
\<close>

datatype regex =
    Zero
  | Eps
  | Lit jschar
  | Class "jschar list"
  | Dot
  | Space
  | Seq regex regex
  | Alt regex regex
  | Opt regex
  | Star regex
  | Plus regex

text \<open>
  Case folding of the \<^verbatim>\<open>i\<close> flag. ECMAScript never folds a code unit above 127 to
  one below 128, and the pattern characters of this file are ASCII or caseless (kana and
  kanji), so folding the ASCII letters is all the flag does to them.
\<close>

definition canonicalize :: "bool \<Rightarrow> jschar \<Rightarrow> jschar" where
  "canonicalize ignoreCase c =
     (if ignoreCase \<and> 0x0061 \<le> c \<and> c \<le> 0x007A then c - 0x0020 else c)"

definition isLineTerminator :: "jschar \<Rightarrow> bool" where
  "isLineTerminator c = (c \<in> set [0x000A, 0x000D, 0x2028, 0x2029])"

fun nullable :: "regex \<Rightarrow> bool" where
  "nullable Zero = False"
| "nullable Eps = True"
| "nullable (Lit p) = False"
| "nullable (Class ms) = False"
| "nullable Dot = False"
| "nullable Space = False"
| "nullable (Seq r1 r2) = (nullable r1 \<and> nullable r2)"
| "nullable (Alt r1 r2) = (nullable r1 \<or> nullable r2)"
| "nullable (Opt r) = True"
| "nullable (Star r) = True"
| "nullable (Plus r) = nullable r"

fun deriv :: "bool \<Rightarrow> jschar \<Rightarrow> regex \<Rightarrow> regex" where
  "deriv i c Zero = Zero"
| "deriv i c Eps = Zero"
| "deriv i c (Lit p) = (if canonicalize i c = canonicalize i p then Eps else Zero)"
| "deriv i c (Class ms) =
     (if list_ex (\<lambda>m. canonicalize i c = canonicalize i m) ms then Eps else Zero)"
| "deriv i c Dot = (if isLineTerminator c then Zero else Eps)"
| "deriv i c Space = (if isWhiteSpace c then Eps else Zero)"
| "deriv i c (Seq r1 r2) =
     (if nullable r1 then Alt (Seq (deriv i c r1) r2) (deriv i c r2)
      else Seq (deriv i c r1) r2)"
| "deriv i c (Alt r1 r2) = Alt (deriv i c r1) (deriv i c r2)"
| "deriv i c (Opt r) = deriv i c r"
| "deriv i c (Star r) = Seq (deriv i c r) (Star r)"
| "deriv i c (Plus r) = Seq (deriv i c r) (Star r)"

text \<open>\<^verbatim>\<open>/^r$/.test(s)\<close>, with the flag \<^verbatim>\<open>i\<close> when \<open>i\<close> holds.\<close>

fun test_anchored :: "bool \<Rightarrow> regex \<Rightarrow> jsstring \<Rightarrow> bool" where
  "test_anchored i r [] = nullable r"
| "test_anchored i r (c # cs) = test_anchored i (deriv i c r) cs"

text \<open>\<^verbatim>\<open>/^r/.test(s)\<close>: some prefix of the string matches.\<close>

fun test_prefix :: "bool \<Rightarrow> regex \<Rightarrow> jsstring \<Rightarrow> bool" where
  "test_prefix i r [] = nullable r"
| "test_prefix i r (c # cs) = (nullable r \<or> test_prefix i (deriv i c r) cs)"

text \<open>A literal run of pattern characters.\<close>

fun lit :: "jsstring \<Rightarrow> regex" where
  "lit [] = Eps"
| "lit [c] = Lit c"
| "lit (c # c' # cs) = Seq (Lit c) (lit (c' # cs))"

text \<open>
  The language of a regular expression, as the specification of the matcher: the strings
  (of code units) that the expression matches from their start to their end.
\<close>

inductive_set star :: "jsstring set \<Rightarrow> jsstring set" for A :: "jsstring set" where
  star_empty: "[] \<in> star A"
| star_more: "u \<in> A \<Longrightarrow> v \<in> star A \<Longrightarrow> u @ v \<in> star A"

fun language :: "bool \<Rightarrow> regex \<Rightarrow> jsstring set" where
  "language i Zero = {}"
| "language i Eps = {[]}"
| "language i (Lit p) = {[c] | c. canonicalize i c = canonicalize i p}"
| "language i (Class ms) = {[c] | c. \<exists>m \<in> set ms. canonicalize i c = canonicalize i m}"
| "language i Dot = {[c] | c. \<not> isLineTerminator c}"
| "language i Space = {[c] | c. isWhiteSpace c}"
| "language i (Seq r1 r2) = {u @ v | u v. u \<in> language i r1 \<and> v \<in> language i r2}"
| "language i (Alt r1 r2) = language i r1 \<union> language i r2"
| "language i (Opt r) = insert [] (language i r)"
| "language i (Star r) = star (language i r)"
| "language i (Plus r) = {u @ v | u v. u \<in> language i r \<and> v \<in> star (language i r)}"

text \<open>\<^verbatim>\<open>\d\<close> and \<^verbatim>\<open>[A-Z]\<close>.\<close>

definition Digit :: regex where
  "Digit = Class (js ''0123456789'')"

definition UpperAZ :: regex where
  "UpperAZ = Class (js ''ABCDEFGHIJKLMNOPQRSTUVWXYZ'')"


section \<open>Shortcut capture\<close>

text \<open>
  \<^verbatim>\<open>mapKeyToShortcutString(code)\<close>. \<^verbatim>\<open>specialMap\<close> is an object literal that maps
  each of its fifteen keys to itself.
\<close>

definition specialMap :: "(jsstring \<times> jsstring) list" where
  "specialMap = map (\<lambda>k. (js k, js k))
     [''Space'', ''Enter'', ''Backspace'', ''Tab'', ''Escape'', ''Delete'', ''Home'', ''End'',
      ''PageUp'', ''PageDown'', ''ArrowUp'', ''ArrowDown'', ''ArrowLeft'', ''ArrowRight'',
      ''Insert'']"

text \<open>
  An object literal inherits the properties of \<^verbatim>\<open>Object.prototype\<close>, so
  \<^verbatim>\<open>specialMap[code]\<close> is not undefined for their names either: it is a built-in function
  or, for \<^verbatim>\<open>__proto__\<close>, the prototype object. Such a value is truthy, so
  \<^verbatim>\<open>specialMap[code] || null\<close> returns it, and the only use the handler makes of it is
  \<^verbatim>\<open>parts.join("+")\<close>, which takes its string form. The table gives that string form;
  for a built-in function it is the one of V8 (another engine may space it differently).
  No key of a keyboard has one of these names as its code.
\<close>

definition native_function :: "string \<Rightarrow> jsstring" where
  "native_function name = js (''function '' @ name @ ''() { [native code] }'')"

definition Object_prototype :: "(jsstring \<times> jsstring) list" where
  "Object_prototype =
     (js ''constructor'', native_function ''Object'') #
     map (\<lambda>name. (js name, native_function name))
       [''__defineGetter__'', ''__defineSetter__'', ''hasOwnProperty'', ''__lookupGetter__'',
        ''__lookupSetter__'', ''isPrototypeOf'', ''propertyIsEnumerable'', ''toString'',
        ''valueOf'', ''toLocaleString''] @
     [(js ''__proto__'', js ''[object Object]'')]"

text \<open>
  \<^verbatim>\<open>charAt\<close> is applied where the test before it has fixed the length of the code. The
  last case is \<^verbatim>\<open>specialMap[code] || null\<close>: an own key, else an inherited property, else
  \<^verbatim>\<open>null\<close>.
\<close>

definition mapKeyToShortcutString :: "jsstring \<Rightarrow> jsstring option" where
  "mapKeyToShortcutString c =
     (if test_anchored False (Seq (lit (js ''Key'')) UpperAZ) c then Some [c ! 3]
      else if test_anchored False (Seq (lit (js ''Digit'')) Digit) c then Some [c ! 5]
      else if test_anchored False (Seq (Lit 0x0046) (Seq Digit (Opt Digit))) c then Some c
      else map_of (specialMap @ Object_prototype) c)"

definition modifierKeys :: "jsstring list" where
  "modifierKeys = [js ''Control'', js ''Shift'', js ''Alt'', js ''Meta'']"

text \<open>
  The accelerator string the keydown handler builds; \<open>None\<close> where the handler returns
  before calling \<^verbatim>\<open>update_shortcut\<close> (a modifier key alone, or a key with no name).
\<close>

definition shortcut_of_event :: "KeyboardEvent \<Rightarrow> jsstring option" where
  "shortcut_of_event e =
     (if key e \<in> set modifierKeys then None
      else
        let parts = (if ctrlKey e then [js ''Ctrl''] else []) @
                    (if shiftKey e then [js ''Shift''] else []) @
                    (if altKey e then [js ''Alt''] else []) @
                    (if metaKey e then [js ''Super''] else [])
        in case mapKeyToShortcutString (code e) of
             None \<Rightarrow> None
           | Some keyName \<Rightarrow> Some (join (js ''+'') (parts @ [keyName])))"

text \<open>The handler is registered on the window only while \<^verbatim>\<open>isCapturingShortcut\<close> holds.\<close>

definition capture_keydown :: "KeyboardEvent \<Rightarrow> AppState \<Rightarrow> AppState \<times> Invoke list" where
  "capture_keydown e s =
     (if \<not> isCapturingShortcut s then (s, [])
      else case shortcut_of_event e of
             None \<Rightarrow> (s, [])
           | Some shortcutStr \<Rightarrow> (s\<lparr>isCapturingShortcut := False\<rparr>, [update_shortcut shortcutStr]))"

text \<open>
  The \<^verbatim>\<open>then\<close> and \<^verbatim>\<open>catch\<close> callbacks of that call. The prefix of the error
  message, given by its code units, is the Japanese for "setting the shortcut failed: ".
\<close>

definition update_shortcut_resolved :: "jsstring \<Rightarrow> AppState \<Rightarrow> AppState" where
  "update_shortcut_resolved shortcutStr s =
     s\<lparr>settings := (settings s)\<lparr>shortcut := shortcutStr\<rparr>\<rparr>"

definition shortcut_failed_prefix :: jsstring where
  "shortcut_failed_prefix = [0x30B7, 0x30E7, 0x30FC, 0x30C8, 0x30AB, 0x30C3, 0x30C8, 0x306E,
     0x8A2D, 0x5B9A, 0x306B, 0x5931, 0x6557, 0x3057, 0x307E, 0x3057, 0x305F, 0x003A, 0x0020]"

definition update_shortcut_rejected :: "jsstring \<Rightarrow> AppState \<Rightarrow> AppState" where
  "update_shortcut_rejected err s = s\<lparr>error := Some (shortcut_failed_prefix @ err)\<rparr>"


section \<open>Theme, autostart, clipboard, settings\<close>

definition toggleTheme :: "AppState \<Rightarrow> AppState" where
  "toggleTheme s = s\<lparr>theme := (if theme s = light then dark else light)\<rparr>"

text \<open>
  \<^verbatim>\<open>toggleAutostart\<close>, and its continuation with \<^verbatim>\<open>newValue\<close> in the closure. The
  prefix of the error message is the Japanese for "setting autostart failed: ".
\<close>

definition toggleAutostart :: "AppState \<Rightarrow> AppState \<times> Invoke list" where
  "toggleAutostart s = (s, [set_autostart_enabled (\<not> autostartEnabled s)])"

definition autostart_failed_prefix :: jsstring where
  "autostart_failed_prefix = [0x81EA, 0x52D5, 0x8D77, 0x52D5, 0x306E, 0x8A2D, 0x5B9A, 0x306B,
     0x5931, 0x6557, 0x3057, 0x307E, 0x3057, 0x305F, 0x003A, 0x0020]"

definition toggleAutostart_settled :: "bool \<Rightarrow> jsstring + unit \<Rightarrow> AppState \<Rightarrow> AppState" where
  "toggleAutostart_settled newValue result s =
     (case result of
        Inr u \<Rightarrow> s\<lparr>autostartEnabled := newValue\<rparr>
      | Inl e \<Rightarrow> s\<lparr>error := Some (autostart_failed_prefix @ e)\<rparr>)"

text \<open>
  \<^verbatim>\<open>handlePaste\<close> and \<^verbatim>\<open>handleCopy\<close>. The messages are the Japanese for "reading
  the clipboard failed" and "copying to the clipboard failed".
\<close>

definition handlePaste :: "AppState \<Rightarrow> AppState \<times> Invoke list" where
  "handlePaste s = (s, [get_clipboard_text])"

definition paste_failed_message :: jsstring where
  "paste_failed_message = [0x30AF, 0x30EA, 0x30C3, 0x30D7, 0x30DC, 0x30FC, 0x30C9, 0x306E,
     0x8AAD, 0x307F, 0x53D6, 0x308A, 0x306B, 0x5931, 0x6557, 0x3057, 0x307E, 0x3057, 0x305F]"

definition handlePaste_settled :: "jsstring option \<Rightarrow> AppState \<Rightarrow> AppState" where
  "handlePaste_settled result s =
     (case result of
        Some text \<Rightarrow> s\<lparr>sourceText := text\<rparr>
      | None \<Rightarrow> s\<lparr>error := Some paste_failed_message\<rparr>)"

definition handleCopy :: "AppState \<Rightarrow> AppState \<times> Invoke list" where
  "handleCopy s = (s, [set_clipboard_text (translatedText s)])"

definition copy_failed_message :: jsstring where
  "copy_failed_message = [0x30AF, 0x30EA, 0x30C3, 0x30D7, 0x30DC, 0x30FC, 0x30C9, 0x3078,
     0x306E, 0x30B3, 0x30D4, 0x30FC, 0x306B, 0x5931, 0x6557, 0x3057, 0x307E, 0x3057, 0x305F]"

definition handleCopy_failed :: "AppState \<Rightarrow> AppState" where
  "handleCopy_failed s = s\<lparr>error := Some copy_failed_message\<rparr>"

text \<open>The \<^verbatim>\<open>onChange\<close> handlers of the settings page and of the language select.\<close>

definition change_provider :: "Provider \<Rightarrow> AppState \<Rightarrow> AppState" where
  "change_provider p s =
     s\<lparr>settings := (settings s)\<lparr>provider := p,
          endpoint := (if p = ollama then js ''http://localhost:11434''
                       else js ''http://localhost:1234'')\<rparr>\<rparr>"

definition change_endpoint :: "jsstring \<Rightarrow> AppState \<Rightarrow> AppState" where
  "change_endpoint v s = s\<lparr>settings := (settings s)\<lparr>endpoint := v\<rparr>\<rparr>"

definition change_model :: "jsstring \<Rightarrow> AppState \<Rightarrow> AppState" where
  "change_model v s = s\<lparr>settings := (settings s)\<lparr>model := v\<rparr>\<rparr>"

definition change_targetLang :: "jsstring \<Rightarrow> AppState \<Rightarrow> AppState" where
  "change_targetLang v s = s\<lparr>settings := (settings s)\<lparr>targetLang := v\<rparr>\<rparr>"

text \<open>\<^verbatim>\<open>handleKeyDown\<close> of the text area: Ctrl+Enter or Cmd+Enter translates.\<close>

definition handleKeyDown :: "KeyboardEvent \<Rightarrow> AppState \<Rightarrow> AppState \<times> Invoke list" where
  "handleKeyDown e s =
     (if key e = js ''Enter'' \<and> (ctrlKey e \<or> metaKey e) then handleTranslate None s
      else (s, []))"


section \<open>Captured selection and automatic translation\<close>

text \<open>
  \<^verbatim>\<open>listen("translate-selection", ...)\<close>: \<^verbatim>\<open>if (text && text.trim())\<close> the text
  becomes the source text, the settings page is closed and the pending flag is set.
\<close>

definition on_translate_selection :: "jsstring \<Rightarrow> AppState \<Rightarrow> AppState" where
  "on_translate_selection text s =
     (if text \<noteq> [] \<and> trim text \<noteq> []
      then s\<lparr>sourceText := text, showSettings := False, pendingTranslateRef := True\<rparr>
      else s)"

text \<open>
  The body of the effect \<^verbatim>\<open>useEffect(..., [sourceText, handleTranslate])\<close>.
\<close>

definition auto_translate :: "AppState \<Rightarrow> AppState \<times> Invoke list" where
  "auto_translate s =
     (if pendingTranslateRef s \<and> trim (sourceText s) \<noteq> []
      then handleTranslate (Some (sourceText s)) (s\<lparr>pendingTranslateRef := False\<rparr>)
      else (s, []))"


section \<open>Initial state and rendering\<close>

text \<open>
  \<^verbatim>\<open>DEFAULT_SETTINGS\<close> (\<open>isMac\<close> is read from the platform), and the state of the first
  render: settings, theme and history are the saved ones when there are any.
\<close>

definition DEFAULT_SETTINGS :: "bool \<Rightarrow> Settings" where
  "DEFAULT_SETTINGS isMac =
     \<lparr>provider = ollama, endpoint = js ''http://localhost:11434'', model = js ''llama3'',
      targetLang = js ''Japanese'',
      shortcut = (if isMac then js ''Super+Alt+L'' else js ''Ctrl+Alt+L'')\<rparr>"

definition initial_state ::
    "bool \<Rightarrow> Settings option \<Rightarrow> Theme option \<Rightarrow> HistoryItem list option \<Rightarrow> AppState" where
  "initial_state isMac saved_settings saved_theme saved_history =
     \<lparr>sourceText = [], translatedText = [], isLoading = False, error = None,
      showSettings = False,
      settings = (case saved_settings of None \<Rightarrow> DEFAULT_SETTINGS isMac | Some st \<Rightarrow> st),
      isCapturingShortcut = False, autostartEnabled = False,
      theme = (case saved_theme of None \<Rightarrow> light | Some th \<Rightarrow> th),
      history = (case saved_history of None \<Rightarrow> [] | Some h \<Rightarrow> h),
      showHistory = False, explanationText = [], isExplanationOpen = False,
      isExplanationLoading = False, explanationError = None, isCancelling = False,
      isExplanationCancelling = False, explanationCacheRef = None,
      pendingTranslateRef = False\<rparr>"

text \<open>
  The commands of the effects that run once, after the first render: the autostart flag is
  loaded and the stored shortcut is registered. When one of the two is rejected the error
  is written to the console and the state is left as it is.
\<close>

definition mount :: "AppState \<Rightarrow> Invoke list" where
  "mount s = [get_autostart_enabled, update_shortcut (shortcut (settings s))]"

text \<open>
  What the error banner of the main page (\<^verbatim>\<open>{error && <div className="neu-error">\<close>)
  shows: the error string when it is not null and not empty. The settings page, rendered
  instead of the main page while \<^verbatim>\<open>showSettings\<close> holds, has no banner. The component
  renders no other element for a message about the translation.
\<close>

definition error_banner :: "AppState \<Rightarrow> jsstring option" where
  "error_banner s =
     (if showSettings s then None
      else case error s of
             None \<Rightarrow> None
           | Some e \<Rightarrow> if e = [] then None else Some e)"


section \<open>The component as a transition system\<close>

text \<open>
  Everything that makes the component run code after its first render: the user's actions,
  the events of the backend, and the settling of the commands it invoked (with the values
  the continuation holds in its closure).
\<close>

datatype Action =
    AutostartLoaded bool
  | ToggleTheme
  | ToggleAutostart
  | ToggleAutostartSettled bool "jsstring + unit"
  | StartShortcutCapture
  | CaptureKeydown KeyboardEvent
  | UpdateShortcutResolved jsstring
  | UpdateShortcutRejected jsstring
  | EditSource jsstring
  | TextareaKeyDown KeyboardEvent
  | ClickTranslate
  | TranslateSettled jsstring Settings int int "jsstring + TranslateResponse"
  | TranslationChunk jsstring
  | ExplanationChunk jsstring
  | TranslationCancelled
  | ExplanationCancelled
  | ToggleExplanation
  | ExplainSettled jsstring "jsstring + jsstring"
  | ClickCancelTranslation
  | CancelTranslationRejected
  | ClickCancelExplanation
  | CancelExplanationRejected
  | TranslateSelection jsstring
  | ClickPaste
  | PasteSettled "jsstring option"
  | ClickCopy
  | CopyRejected
  | SelectHistory HistoryItem
  | DeleteHistory jsstring
  | ClearHistory
  | ChangeProvider Provider
  | ChangeEndpoint jsstring
  | ChangeModel jsstring
  | ChangeTargetLang jsstring
  | SetShowSettings bool
  | SetShowHistory bool

fun handle :: "Action \<Rightarrow> AppState \<Rightarrow> AppState \<times> Invoke list" where
  "handle (AutostartLoaded b) s = (s\<lparr>autostartEnabled := b\<rparr>, [])"
| "handle ToggleTheme s = (toggleTheme s, [])"
| "handle ToggleAutostart s = toggleAutostart s"
| "handle (ToggleAutostartSettled newValue result) s = (toggleAutostart_settled newValue result s, [])"
| "handle StartShortcutCapture s = (s\<lparr>isCapturingShortcut := True\<rparr>, [])"
| "handle (CaptureKeydown e) s = capture_keydown e s"
| "handle (UpdateShortcutResolved shortcutStr) s = (update_shortcut_resolved shortcutStr s, [])"
| "handle (UpdateShortcutRejected err) s = (update_shortcut_rejected err s, [])"
| "handle (EditSource v) s = (s\<lparr>sourceText := v\<rparr>, [])"
| "handle (TextareaKeyDown e) s = handleKeyDown e s"
| "handle ClickTranslate s = handleTranslate None s"
| "handle (TranslateSettled text settings0 now_id now_timestamp result) s =
     (handleTranslate_settled text settings0 now_id now_timestamp result s, [])"
| "handle (TranslationChunk payload) s = (on_translation_chunk payload s, [])"
| "handle (ExplanationChunk payload) s = (on_explanation_chunk payload s, [])"
| "handle TranslationCancelled s = (on_translation_cancelled s, [])"
| "handle ExplanationCancelled s = (on_explanation_cancelled s, [])"
| "handle ToggleExplanation s = toggleExplanation s"
| "handle (ExplainSettled source0 result) s = (handleExplain_settled source0 result s, [])"
| "handle ClickCancelTranslation s = handleCancelTranslation s"
| "handle CancelTranslationRejected s = (handleCancelTranslation_failed s, [])"
| "handle ClickCancelExplanation s = handleCancelExplanation s"
| "handle CancelExplanationRejected s = (handleCancelExplanation_failed s, [])"
| "handle (TranslateSelection text) s = (on_translate_selection text s, [])"
| "handle ClickPaste s = handlePaste s"
| "handle (PasteSettled result) s = (handlePaste_settled result s, [])"
| "handle ClickCopy s = handleCopy s"
| "handle CopyRejected s = (handleCopy_failed s, [])"
| "handle (SelectHistory item) s = (handleSelectHistory item s, [])"
| "handle (DeleteHistory ident) s = (handleDeleteHistory ident s, [])"
| "handle ClearHistory s = (handleClearHistory s, [])"
| "handle (ChangeProvider p) s = (change_provider p s, [])"
| "handle (ChangeEndpoint v) s = (change_endpoint v s, [])"
| "handle (ChangeModel v) s = (change_model v s, [])"
| "handle (ChangeTargetLang v) s = (change_targetLang v s, [])"
| "handle (SetShowSettings b) s = (s\<lparr>showSettings := b\<rparr>, [])"
| "handle (SetShowHistory b) s = (s\<lparr>showHistory := b\<rparr>, [])"

text \<open>
  The actions whose handler calls \<^verbatim>\<open>setSettings\<close>. Each call installs a new settings
  object, and \<^verbatim>\<open>handleTranslate\<close> (memoised on \<^verbatim>\<open>[sourceText, settings, addToHistory]\<close>)
  is then a new function.
\<close>

fun sets_settings :: "Action \<Rightarrow> bool" where
  "sets_settings (UpdateShortcutResolved shortcutStr) = True"
| "sets_settings (SelectHistory item) = True"
| "sets_settings (ChangeProvider p) = True"
| "sets_settings (ChangeEndpoint v) = True"
| "sets_settings (ChangeModel v) = True"
| "sets_settings (ChangeTargetLang v) = True"
| "sets_settings a = False"

text \<open>
  One step of the component: the handler runs, the component renders again, and the effect
  \<^verbatim>\<open>useEffect(..., [sourceText, handleTranslate])\<close> runs if one of its two dependencies
  is not the one of the previous render: the source text is another string, or
  \<^verbatim>\<open>handleTranslate\<close> is a new function. The effect changes neither dependency, so it
  does not run a second time.
\<close>

definition step :: "Action \<Rightarrow> AppState \<Rightarrow> AppState \<times> Invoke list" where
  "step a s =
     (let (s1, invoked) = handle a s in
      if sourceText s1 \<noteq> sourceText s \<or> sets_settings a
      then (let (s2, invoked') = auto_translate s1 in (s2, invoked @ invoked'))
      else (s1, invoked))"


section \<open>Filtering the sections of an explanation\<close>

text \<open>
  \<^verbatim>\<open>NA_PATTERNS\<close>, tested with the flag \<^verbatim>\<open>i\<close>. The five Japanese alternatives
  (phrases for "not applicable", "nothing in particular", "none", "there is none") are
  given by their code units.
\<close>

definition NA_alternatives :: regex where
  "NA_alternatives =
     Alt (lit [0x8A72, 0x5F53, 0x306A, 0x3057])
    (Alt (lit [0x7279, 0x306B, 0x3042, 0x308A, 0x307E, 0x305B, 0x3093])
    (Alt (lit [0x7279, 0x306B, 0x306A, 0x3057])
    (Alt (lit [0x306A, 0x3057])
    (Alt (lit [0x3042, 0x308A, 0x307E, 0x305B, 0x3093])
    (Alt (Seq (Lit 0x004E) (Seq (Opt (Lit 0x002F)) (Lit 0x0041)))
    (Alt (lit (js ''None''))
    (Alt (Seq (lit (js ''No '')) (Seq (Plus Dot) (lit (js '' found''))))
         (Seq (lit (js ''No '')) (Seq (Plus Dot) (lit (js '' detected''))))
    )))))))"

definition NA_PATTERNS :: regex where
  "NA_PATTERNS =
     Seq (Opt (Class (js ''-*'')))
    (Seq (Star Space)
    (Seq NA_alternatives
    (Seq (Opt (Lit 0x002E))
         (Star Space))))"

definition NA_PATTERNS_test :: "jsstring \<Rightarrow> bool" where
  "NA_PATTERNS_test s = test_anchored True NA_PATTERNS s"

text \<open>\<^verbatim>\<open>/^##\s+/.test(l)\<close>.\<close>

definition isHeading :: "jsstring \<Rightarrow> bool" where
  "isHeading l = test_prefix False (Seq (lit (js ''##'')) (Plus Space)) l"

text \<open>
  The inner loop of \<^verbatim>\<open>filterEmptySections\<close>: from index \<open>i\<close>, the lines up to the
  next heading are pushed on \<open>sectionLines\<close>; the result is the index reached and the
  lines collected.
\<close>

function collect_section :: "jsstring list \<Rightarrow> nat \<Rightarrow> jsstring list \<Rightarrow> nat \<times> jsstring list" where
  "collect_section lines i sectionLines =
     (if i < length lines \<and> \<not> isHeading (lines ! i)
      then collect_section lines (Suc i) (sectionLines @ [lines ! i])
      else (i, sectionLines))"
  by pat_completeness auto
termination
  by (relation "measure (\<lambda>(lines, i, sectionLines). length lines - i)") auto

lemma collect_section_index:
  "collect_section lines i sectionLines = (j, collected) \<Longrightarrow> i \<le> j"
proof (induction lines i sectionLines rule: collect_section.induct)
  case (1 lines i sectionLines)
  show ?case
  proof (cases "i < length lines \<and> \<not> isHeading (lines ! i)")
    case True
    with "1.prems" have "collect_section lines (Suc i) (sectionLines @ [lines ! i]) = (j, collected)"
      by simp
    with "1.IH" True have "Suc i \<le> j" by blast
    then show ?thesis by simp
  next
    case False
    with "1.prems" show ?thesis by simp
  qed
qed

text \<open>
  \<^verbatim>\<open>allNA\<close>: the section has no line that is not blank, or each of them, trimmed,
  matches \<^verbatim>\<open>NA_PATTERNS\<close>.
\<close>

definition allNA :: "jsstring list \<Rightarrow> bool" where
  "allNA sectionLines =
     (let contentLines = filter (\<lambda>l. trim l \<noteq> []) sectionLines
      in contentLines = [] \<or> list_all (\<lambda>l. NA_PATTERNS_test (trim l)) contentLines)"

text \<open>The outer loop, with its index \<open>i\<close> and the array \<open>result\<close>.\<close>

function filter_loop :: "jsstring list \<Rightarrow> nat \<Rightarrow> jsstring list \<Rightarrow> jsstring list" where
  "filter_loop lines i result =
     (if i < length lines
      then (if isHeading (lines ! i)
            then (let heading = lines ! i;
                      (j, sectionLines) = collect_section lines (Suc i) []
                  in if \<not> allNA sectionLines
                     then filter_loop lines j (result @ heading # sectionLines)
                     else filter_loop lines j result)
            else filter_loop lines (Suc i) (result @ [lines ! i]))
      else result)"
  by pat_completeness auto
termination
proof (relation "measure (\<lambda>(lines, i, result). length lines - i)", goal_cases)
  case 1
  show ?case by simp
next
  case (2 lines i result heading p j sectionLines)
  from 2 have "Suc i \<le> j"
    using collect_section_index [of lines "Suc i" "[]" j sectionLines] by simp
  with 2 show ?case by simp
next
  case (3 lines i result heading p j sectionLines)
  from 3 have "Suc i \<le> j"
    using collect_section_index [of lines "Suc i" "[]" j sectionLines] by simp
  with 3 show ?case by simp
next
  case (4 lines i result)
  then show ?case by simp
qed

declare collect_section.simps [simp del] filter_loop.simps [simp del]

definition filterEmptySections :: "jsstring \<Rightarrow> jsstring" where
  "filterEmptySections markdown = trim (join [LF] (filter_loop (split_lines markdown) 0 []))"


text \<open>
  The same filter as a specification on lines. A section is a heading with the lines up to
  the next heading; the lines before the first heading belong to no section.
\<close>

function sections :: "jsstring list \<Rightarrow> (jsstring \<times> jsstring list) list" where
  "sections [] = []"
| "sections (l # ls) =
     (if isHeading l
      then (l, takeWhile (\<lambda>x. \<not> isHeading x) ls) # sections (dropWhile (\<lambda>x. \<not> isHeading x) ls)
      else sections ls)"
  by pat_completeness auto
termination
  by (relation "measure length") (auto simp: less_Suc_eq_le length_dropWhile_le)

text \<open>
  A section to remove: each of its content lines is blank or, trimmed, matches the
  not-applicable patterns.
\<close>

definition not_applicable_section :: "jsstring \<times> jsstring list \<Rightarrow> bool" where
  "not_applicable_section sec = list_all (\<lambda>l. trim l = [] \<or> NA_PATTERNS_test (trim l)) (snd sec)"

definition section_lines :: "jsstring \<times> jsstring list \<Rightarrow> jsstring list" where
  "section_lines sec = fst sec # snd sec"

text \<open>
  The lines to keep, in their order: those before the first heading, and those of every
  section that is not to remove.
\<close>

definition kept_lines :: "jsstring list \<Rightarrow> jsstring list" where
  "kept_lines lines =
     takeWhile (\<lambda>x. \<not> isHeading x) lines @
     concat (map section_lines (filter (\<lambda>sec. \<not> not_applicable_section sec) (sections lines)))"


section \<open>Wire decoder (Ollama style)\<close>

text \<open>
  Modelled from the spec: the Ollama wire decoder of the backend (the Rust source
  \<^verbatim>\<open>src-tauri/src/lib.rs\<close> is not among the source files). Section 4.1 of the spec: every
  chunk received is appended to an accumulator; while the accumulator holds a newline, the
  line up to and including it is removed and parsed as a JSON object with the fields
  \<^verbatim>\<open>response\<close> and \<^verbatim>\<open>done\<close>; a line that does not parse emits nothing; a line with
  \<^verbatim>\<open>done = true\<close> emits \<open>End\<close> and the decoder consumes no further input; when the
  transport ends with no such line, \<open>End\<close> is emitted all the same, unless no byte was
  ever received. The JSON parser is a parameter.
\<close>

type_synonym byte = "8 word"

record OllamaLine =
  line_response :: "byte list"
  line_done :: bool

datatype TokenEvent = Token "byte list" | End | Cancelled

datatype DecodeError = NoBytesReceived

definition NL :: byte where
  "NL = 0x0A"

text \<open>
  The scan of the accumulator: the events of its complete lines, what is left of it, and
  whether a line with \<^verbatim>\<open>done = true\<close> was met.
\<close>

function drain ::
    "(byte list \<Rightarrow> OllamaLine option) \<Rightarrow> byte list \<Rightarrow> TokenEvent list \<times> byte list \<times> bool" where
  "drain parse acc =
     (if NL \<in> set acc
      then (let line = takeWhile (\<lambda>b. b \<noteq> NL) acc @ [NL];
                rest = tl (dropWhile (\<lambda>b. b \<noteq> NL) acc)
            in case parse line of
                 None \<Rightarrow> drain parse rest
               | Some obj \<Rightarrow>
                   if line_done obj then ([End], rest, True)
                   else (let (events, acc', finished) = drain parse rest
                         in (Token (line_response obj) # events, acc', finished)))
      else ([], acc, False))"
  by pat_completeness auto
termination
proof (relation "measure (\<lambda>(parse, acc). length acc)", goal_cases)
  case 1
  show ?case by simp
next
  case (2 parse acc line rest)
  then have "dropWhile (\<lambda>b. b \<noteq> NL) acc \<noteq> []" by simp
  then have "length rest < length (dropWhile (\<lambda>b. b \<noteq> NL) acc)"
    using 2 by (cases "dropWhile (\<lambda>b. b \<noteq> NL) acc") simp_all
  then show ?case
    using length_dropWhile_le [of "\<lambda>b. b \<noteq> NL" acc] by simp
next
  case (3 parse acc line rest obj)
  then have "dropWhile (\<lambda>b. b \<noteq> NL) acc \<noteq> []" by simp
  then have "length rest < length (dropWhile (\<lambda>b. b \<noteq> NL) acc)"
    using 3 by (cases "dropWhile (\<lambda>b. b \<noteq> NL) acc") simp_all
  then show ?case
    using length_dropWhile_le [of "\<lambda>b. b \<noteq> NL" acc] by simp
qed

declare drain.simps [simp del]

text \<open>The state of one decoding session.\<close>

record DecoderState =
  accumulator :: "byte list"
  finished :: bool
  received :: bool

definition decoder_start :: DecoderState where
  "decoder_start = \<lparr>accumulator = [], finished = False, received = False\<rparr>"

text \<open>One chunk is delivered.\<close>

definition feed ::
    "(byte list \<Rightarrow> OllamaLine option) \<Rightarrow> byte list \<Rightarrow> DecoderState \<Rightarrow> DecoderState \<times> TokenEvent list" where
  "feed parse chunk st =
     (if finished st then (st, [])
      else (let (events, acc', fin) = drain parse (accumulator st @ chunk)
            in (\<lparr>accumulator = acc', finished = fin, received = (received st \<or> chunk \<noteq> [])\<rparr>,
                events)))"

fun feed_all ::
    "(byte list \<Rightarrow> OllamaLine option) \<Rightarrow> byte list list \<Rightarrow> DecoderState \<Rightarrow> DecoderState \<times> TokenEvent list" where
  "feed_all parse [] st = (st, [])"
| "feed_all parse (chunk # chunks) st =
     (let (st1, events1) = feed parse chunk st;
          (st2, events2) = feed_all parse chunks st1
      in (st2, events1 @ events2))"

text \<open>
  The events of a whole response body delivered as the given chunks, the end of the
  transport included.
\<close>

definition decode ::
    "(byte list \<Rightarrow> OllamaLine option) \<Rightarrow> byte list list \<Rightarrow> DecodeError + TokenEvent list" where
  "decode parse chunks =
     (let (st, events) = feed_all parse chunks decoder_start
      in if finished st then Inr events
         else if received st then Inr (events @ [End])
         else Inl NoBytesReceived)"


text \<open>
  The example of the spec: a parser that knows the three lines of the example body, and
  the body delivered in three chunks that split two of its objects.
\<close>

definition bytes :: "string \<Rightarrow> byte list" where
  "bytes s = map of_char s"

definition example_parse :: "byte list \<Rightarrow> OllamaLine option" where
  \<open>example_parse line =
     map_of
       [(bytes ''{"response":"Hello","done":false}'' @ [NL],
           \<lparr>line_response = bytes ''Hello'', line_done = False\<rparr>),
        (bytes ''{"response":" world","done":false}'' @ [NL],
           \<lparr>line_response = bytes '' world'', line_done = False\<rparr>),
        (bytes ''{"response":"","done":true}'' @ [NL],
           \<lparr>line_response = [], line_done = True\<rparr>)]
       line\<close>

definition example_chunks :: "byte list list" where
  \<open>example_chunks =
     [bytes ''{"response":"Hel'',
      bytes ''lo","done":false}'' @ [NL] @ bytes ''{"response":" world","done":false}'' @ [NL]
        @ bytes ''{"resp'',
      bytes ''onse":"","done":true}'' @ [NL]]\<close>


text \<open>A run of the component: the steps of a list of actions, in order.\<close>

fun run :: "Action list \<Rightarrow> AppState \<Rightarrow> AppState \<times> Invoke list" where
  "run [] s = (s, [])"
| "run (a # rest) s =
     (let (s1, invoked1) = step a s;
          (s2, invoked2) = run rest s1
      in (s2, invoked1 @ invoked2))"


text \<open>
  The state of each of the two domains: what the component holds for the translation, and
  what it holds for the explanation.
\<close>

definition translation_side ::
    "AppState \<Rightarrow> jsstring \<times> jsstring \<times> bool \<times> jsstring option \<times> bool \<times> bool \<times> HistoryItem list" where
  "translation_side s =
     (sourceText s, translatedText s, isLoading s, error s, isCancelling s,
      pendingTranslateRef s, history s)"

definition explanation_side ::
    "AppState \<Rightarrow> jsstring \<times> bool \<times> bool \<times> jsstring option \<times> bool \<times> ExplanationCache option" where
  "explanation_side s =
     (explanationText s, isExplanationOpen s, isExplanationLoading s, explanationError s,
      isExplanationCancelling s, explanationCacheRef s)"

text \<open>
  A state the component reaches from its first render: the text \<open>hello\<close> was captured,
  translated into the streamed token \<open>salut\<close>, and the translation completed.
\<close>

definition hello_state :: AppState where
  "hello_state =
     fst (run [TranslateSelection (js ''hello''), TranslationChunk (js ''salut''),
               TranslateSettled (js ''hello'') (DEFAULT_SETTINGS False) 0 0
                 (Inr \<lparr>translated_text = js ''salut'', detected_lang = None\<rparr>)]
              (initial_state False None None None))"



section \<open>Correctness of the matcher\<close>

text \<open>
  The two tests decide membership in the language: \<^verbatim>\<open>/^r$/.test(s)\<close> holds when
  \<open>s\<close> is in the language of \<open>r\<close>, and \<^verbatim>\<open>/^r/.test(s)\<close> when a prefix of \<open>s\<close>
  is.
\<close>

lemma nullable_lang: "nullable r = ([] \<in> language i r)"
  by (induction r) (auto intro: star_empty)

lemma star_cons_split:
  "w \<in> star A \<Longrightarrow> w = c # s \<Longrightarrow> \<exists>u v. s = u @ v \<and> c # u \<in> A \<and> v \<in> star A"
proof (induction w rule: star.induct)
  case star_empty
  then show ?case by simp
next
  case (star_more u v)
  show ?case
  proof (cases u)
    case Nil
    with star_more show ?thesis by simp
  next
    case (Cons d u')
    with star_more.prems have "d = c" "s = u' @ v" by simp_all
    with Cons star_more.hyps show ?thesis by blast
  qed
qed

lemma star_cons:
  "(c # s \<in> star A) = (\<exists>u v. s = u @ v \<and> c # u \<in> A \<and> v \<in> star A)"
proof
  assume "c # s \<in> star A"
  then show "\<exists>u v. s = u @ v \<and> c # u \<in> A \<and> v \<in> star A"
    by (rule star_cons_split) simp
next
  assume "\<exists>u v. s = u @ v \<and> c # u \<in> A \<and> v \<in> star A"
  then obtain u v where "s = u @ v" "c # u \<in> A" "v \<in> star A" by blast
  then show "c # s \<in> star A"
    using star_more [of "c # u" A v] by simp
qed

lemma seq_cons:
  "(\<exists>u v. c # s = u @ v \<and> u \<in> A \<and> v \<in> B) =
   (([] \<in> A \<and> c # s \<in> B) \<or> (\<exists>u v. s = u @ v \<and> c # u \<in> A \<and> v \<in> B))"
proof
  assume "\<exists>u v. c # s = u @ v \<and> u \<in> A \<and> v \<in> B"
  then obtain u v where uv: "c # s = u @ v" "u \<in> A" "v \<in> B" by blast
  show "([] \<in> A \<and> c # s \<in> B) \<or> (\<exists>u v. s = u @ v \<and> c # u \<in> A \<and> v \<in> B)"
  proof (cases u)
    case Nil
    with uv show ?thesis by simp
  next
    case (Cons d u')
    with uv have "d = c" "s = u' @ v" by simp_all
    with Cons uv show ?thesis by blast
  qed
next
  assume "([] \<in> A \<and> c # s \<in> B) \<or> (\<exists>u v. s = u @ v \<and> c # u \<in> A \<and> v \<in> B)"
  then show "\<exists>u v. c # s = u @ v \<and> u \<in> A \<and> v \<in> B"
  proof
    assume "[] \<in> A \<and> c # s \<in> B"
    then have "c # s = [] @ (c # s) \<and> [] \<in> A \<and> c # s \<in> B" by simp
    then show ?thesis by blast
  next
    assume "\<exists>u v. s = u @ v \<and> c # u \<in> A \<and> v \<in> B"
    then obtain u v where "s = u @ v" "c # u \<in> A" "v \<in> B" by blast
    then have "c # s = (c # u) @ v \<and> c # u \<in> A \<and> v \<in> B" by simp
    then show ?thesis by blast
  qed
qed

lemma deriv_lang: "(s \<in> language i (deriv i c r)) = (c # s \<in> language i r)"
proof (induction r arbitrary: s)
  case (Seq r1 r2)
  have "(c # s \<in> language i (Seq r1 r2)) =
        (([] \<in> language i r1 \<and> c # s \<in> language i r2) \<or>
         (\<exists>u v. s = u @ v \<and> c # u \<in> language i r1 \<and> v \<in> language i r2))"
    using seq_cons [of c s "language i r1" "language i r2"] by simp
  with Seq show ?case
    by (auto simp: nullable_lang [of r1 i])
next
  case (Star r)
  with star_cons [of c s "language i r"] show ?case by auto
next
  case (Plus r)
  have "(c # s \<in> language i (Plus r)) =
        (([] \<in> language i r \<and> c # s \<in> star (language i r)) \<or>
         (\<exists>u v. s = u @ v \<and> c # u \<in> language i r \<and> v \<in> star (language i r)))"
    using seq_cons [of c s "language i r" "star (language i r)"] by simp
  with Plus star_cons [of c s "language i r"] show ?case by auto
qed (auto simp: list_ex_iff)

theorem test_anchored_lang: "test_anchored i r s = (s \<in> language i r)"
  by (induction s arbitrary: r) (simp_all add: nullable_lang [of _ i] deriv_lang)

theorem test_prefix_lang: "test_prefix i r s = (\<exists>n. take n s \<in> language i r)"
proof (induction s arbitrary: r)
  case Nil
  show ?case by (simp add: nullable_lang [of _ i])
next
  case (Cons c s)
  have "(\<exists>n. take n (c # s) \<in> language i r) = ([] \<in> language i r \<or> (\<exists>n. c # take n s \<in> language i r))"
  proof
    assume "\<exists>n. take n (c # s) \<in> language i r"
    then obtain n where n: "take n (c # s) \<in> language i r" by blast
    show "[] \<in> language i r \<or> (\<exists>n. c # take n s \<in> language i r)"
    proof (cases n)
      case 0
      with n show ?thesis by simp
    next
      case (Suc m)
      with n show ?thesis by auto
    qed
  next
    assume "[] \<in> language i r \<or> (\<exists>n. c # take n s \<in> language i r)"
    then show "\<exists>n. take n (c # s) \<in> language i r"
    proof
      assume "[] \<in> language i r"
      then have "take 0 (c # s) \<in> language i r" by simp
      then show ?thesis by blast
    next
      assume "\<exists>n. c # take n s \<in> language i r"
      then obtain n where "take (Suc n) (c # s) \<in> language i r" by auto
      then show ?thesis by blast
    qed
  qed
  with Cons show ?case
    by (simp add: nullable_lang [of _ i] deriv_lang)
qed


section \<open>Properties of the streaming listeners\<close>

lemma step_translation_chunk: "step (TranslationChunk p) s = (on_translation_chunk p s, [])"
  by (simp add: step_def on_translation_chunk_def)

lemma run_translation_chunks:
  "run (map TranslationChunk ps @ rest) s = run rest (s\<lparr>translatedText := translatedText s @ concat ps\<rparr>)"
proof (induction ps arbitrary: s)
  case Nil
  show ?case by simp
next
  case (Cons p ps)
  show ?case by (simp add: step_translation_chunk Cons.IH on_translation_chunk_def)
qed

lemma translate_settled_keeps_text:
  "translatedText (fst (step (TranslateSettled text st n1 n2 (Inr r)) s)) = translatedText s"
  by (simp add: step_def handleTranslate_settled_def addToHistory_def Let_def)

text \<open>
  C5. After the displayed translation is reset to the empty string, a finite sequence of
  \<^verbatim>\<open>translation-chunk\<close> events leaves the displayed text equal to the concatenation of
  their payloads, in the order of the events. In particular, for a translation that
  \<^verbatim>\<open>handleTranslate\<close> started (which resets the text) and that completes normally after
  the chunks, the final text is the concatenation of the streamed tokens.
\<close>

theorem translation_chunks_concatenate:
  "translatedText (fst (run (map TranslationChunk ps) (s\<lparr>translatedText := []\<rparr>))) = concat ps
   \<and> (trim (translate_text arg s) \<noteq> [] \<longrightarrow>
        translatedText (fst (run (map TranslationChunk ps @ [TranslateSettled text st n1 n2 (Inr r)])
                            (fst (handleTranslate arg s)))) = concat ps)"
proof
  show "translatedText (fst (run (map TranslationChunk ps) (s\<lparr>translatedText := []\<rparr>))) = concat ps"
    using run_translation_chunks [of ps "[]" "s\<lparr>translatedText := []\<rparr>"] by simp
next
  show "trim (translate_text arg s) \<noteq> [] \<longrightarrow>
        translatedText (fst (run (map TranslationChunk ps @ [TranslateSettled text st n1 n2 (Inr r)])
                            (fst (handleTranslate arg s)))) = concat ps"
  proof
    assume ne: "trim (translate_text arg s) \<noteq> []"
    then have t0: "translatedText (fst (handleTranslate arg s)) = []"
      by (simp add: handleTranslate_def Let_def)
    show "translatedText (fst (run (map TranslationChunk ps @ [TranslateSettled text st n1 n2 (Inr r)])
                            (fst (handleTranslate arg s)))) = concat ps"
      by (simp add: run_translation_chunks t0 split_beta translate_settled_keeps_text)
  qed
qed

lemma trim_hello: "trim (js ''hello'') = js ''hello''"
  by (simp add: trim_def js_def isWhiteSpace_def)

theorem translation_chunks_concatenate_witness:
  "trim (translate_text None ((initial_state False None None None)\<lparr>sourceText := js ''hello''\<rparr>)) \<noteq> []
   \<and> translatedText (fst (run (map TranslationChunk
          [[0x3053, 0x3093, 0x306B, 0x3061, 0x306F], [0x3001, 0x4E16, 0x754C]]
          @ [TranslateSettled (js ''hello'') (DEFAULT_SETTINGS False) 0 0
               (Inr \<lparr>translated_text = [0x3053, 0x3093, 0x306B, 0x3061, 0x306F, 0x3001, 0x4E16, 0x754C],
                     detected_lang = None\<rparr>)])
        (fst (handleTranslate None ((initial_state False None None None)\<lparr>sourceText := js ''hello''\<rparr>)))))
     = [0x3053, 0x3093, 0x306B, 0x3061, 0x306F, 0x3001, 0x4E16, 0x754C]"
proof -
  have ne: "trim (translate_text None ((initial_state False None None None)\<lparr>sourceText := js ''hello''\<rparr>)) \<noteq> []"
    by (simp add: translate_text_def trim_hello) (simp add: js_def)
  from ne translation_chunks_concatenate
         [of "[[0x3053, 0x3093, 0x306B, 0x3061, 0x306F], [0x3001, 0x4E16, 0x754C]]"
             "(initial_state False None None None)\<lparr>sourceText := js ''hello''\<rparr>" None
             "js ''hello''" "DEFAULT_SETTINGS False" 0 0
             "\<lparr>translated_text = [0x3053, 0x3093, 0x306B, 0x3061, 0x306F, 0x3001, 0x4E16, 0x754C],
                     detected_lang = None\<rparr>"]
  show ?thesis by simp
qed



section \<open>Properties of the handlers\<close>

lemmas handler_defs =
  toggleTheme_def toggleAutostart_def toggleAutostart_settled_def capture_keydown_def
  update_shortcut_resolved_def update_shortcut_rejected_def handleKeyDown_def handleTranslate_def
  handleTranslate_settled_def addToHistory_def on_translation_chunk_def on_explanation_chunk_def
  on_translation_cancelled_def on_explanation_cancelled_def toggleExplanation_def
  handleExplain_def explain_start_def handleExplain_settled_def handleCancelTranslation_def
  handleCancelTranslation_failed_def handleCancelExplanation_def handleCancelExplanation_failed_def
  on_translate_selection_def handlePaste_def handlePaste_settled_def handleCopy_def
  handleCopy_failed_def handleSelectHistory_def handleDeleteHistory_def handleClearHistory_def
  change_provider_def change_endpoint_def change_model_def change_targetLang_def

lemma trim_salut: "trim (js ''salut'') = js ''salut''"
  by (simp add: trim_def js_def isWhiteSpace_def)

lemma js_hello_nonempty: "js ''hello'' \<noteq> []"
  by (simp add: js_def)

lemma step_translate_settled:
  "step (TranslateSettled text st n1 n2 result) s =
     (handleTranslate_settled text st n1 n2 result s, [])"
  by (cases result) (simp_all add: step_def handleTranslate_settled_def addToHistory_def)

lemma hello_state_eq:
  "hello_state =
     (initial_state False None None None)
       \<lparr>sourceText := js ''hello'', translatedText := js ''salut'',
        history := [\<lparr>item_id = js ''0'', item_sourceText = js ''hello'',
                     item_translatedText = js ''salut'', item_targetLang = js ''Japanese'',
                     item_timestamp = 0\<rparr>]\<rparr>"
  by (simp add: hello_state_def step_def on_translate_selection_def auto_translate_def
        handleTranslate_def translate_text_def initial_state_def DEFAULT_SETTINGS_def
        trim_hello trim_salut js_hello_nonempty Let_def on_translation_chunk_def
        handleTranslate_settled_def addToHistory_def Number_toString_def)
     (simp add: js_def)

subsection \<open>Cancellation and failure\<close>

text \<open>
  C1. The claim is that the notification of a cancelled translation never goes through the
  error state and the error banner of the failures. In the component it does: the
  \<^verbatim>\<open>translation-cancelled\<close> listener stores its message in \<^verbatim>\<open>error\<close>, the state a
  rejected \<^verbatim>\<open>translate\<close> command stores its failure in, and the error banner of the main
  page shows either of them.
\<close>

theorem translation_cancelled_shown_in_error_banner:
  "error (fst (step TranslationCancelled s)) = Some translation_cancelled_message
   \<and> error_banner ((fst (step TranslationCancelled s))\<lparr>showSettings := False\<rparr>)
       = Some translation_cancelled_message
   \<and> error (fst (step (TranslateSettled text st n1 n2 (Inl e)) s)) = Some e
   \<and> error_banner ((fst (step (TranslateSettled text st n1 n2 (Inl (js ''connection refused''))) s))
        \<lparr>showSettings := False\<rparr>) = Some (js ''connection refused'')"
  by (simp add: step_def on_translation_cancelled_def error_banner_def handleTranslate_settled_def
        translation_cancelled_message_def js_def)

lemma hello_state_main_page: "showSettings hello_state = False"
  by (simp add: hello_state_eq initial_state_def)

theorem translation_cancelled_shown_in_error_banner_witness:
  "error_banner (fst (step TranslationCancelled hello_state)) = Some translation_cancelled_message
   \<and> error_banner (fst (step (TranslateSettled (js ''hello'') (DEFAULT_SETTINGS False) 1 1
         (Inl (js ''connection refused''))) hello_state)) = Some (js ''connection refused'')"
proof -
  have same: "(fst (step a hello_state))\<lparr>showSettings := False\<rparr> = fst (step a hello_state)"
    if "showSettings (fst (step a hello_state)) = False" for a
    using that by simp
  have "showSettings (fst (step TranslationCancelled hello_state)) = False"
    by (simp add: step_def on_translation_cancelled_def hello_state_main_page)
  moreover have "showSettings (fst (step (TranslateSettled (js ''hello'') (DEFAULT_SETTINGS False) 1 1
         (Inl (js ''connection refused''))) hello_state)) = False"
    by (simp add: step_translate_settled handleTranslate_settled_def hello_state_main_page)
  ultimately show ?thesis
    using translation_cancelled_shown_in_error_banner
            [of hello_state "js ''hello''" "DEFAULT_SETTINGS False" 1 1 "js ''connection refused''"]
          same
    by simp
qed

subsection \<open>Captured selection\<close>

lemma selection_empty_noop:
  "trim text = [] \<Longrightarrow> step (TranslateSelection text) s = (s, [])"
  by (simp add: step_def on_translate_selection_def)

lemma selection_new_text_translates:
  "trim text \<noteq> [] \<Longrightarrow> text \<noteq> sourceText s \<Longrightarrow>
   snd (step (TranslateSelection text) s)
     = [translate \<lparr>req_text = text, req_source_lang = js ''auto'',
          req_target_lang = targetLang (settings s), req_provider = provider (settings s),
          req_endpoint = endpoint (settings s), req_model = model (settings s)\<rparr>]"
  by (auto simp: step_def on_translate_selection_def auto_translate_def handleTranslate_def
        translate_text_def Let_def trim_def)

lemma selection_same_text_no_translation:
  "text = sourceText s \<Longrightarrow> snd (step (TranslateSelection text) s) = []"
  by (simp add: step_def on_translate_selection_def)

text \<open>
  C3. The claim is that every \<^verbatim>\<open>translate-selection\<close> payload that is not empty after
  trimming starts a translation. The first capture of \<open>hello\<close> does; when the same text
  is captured again, the listener sets the pending flag and stores the same source text,
  the effect on \<^verbatim>\<open>[sourceText, handleTranslate]\<close> does not run, and no translation
  starts: the flag stays set.
\<close>

theorem repeated_selection_starts_no_translation:
  "snd (step (TranslateSelection (js ''hello'')) (initial_state False None None None))
     = [translate \<lparr>req_text = js ''hello'', req_source_lang = js ''auto'',
          req_target_lang = js ''Japanese'', req_provider = ollama,
          req_endpoint = js ''http://localhost:11434'', req_model = js ''llama3''\<rparr>]
   \<and> trim (js ''hello'') \<noteq> []
   \<and> snd (step (TranslateSelection (js ''hello'')) hello_state) = []
   \<and> fst (step (TranslateSelection (js ''hello'')) hello_state)
       = hello_state\<lparr>pendingTranslateRef := True\<rparr>"
  by (simp add: hello_state_eq step_def on_translate_selection_def auto_translate_def
        handleTranslate_def translate_text_def initial_state_def DEFAULT_SETTINGS_def
        trim_hello js_hello_nonempty Let_def)

theorem repeated_selection_starts_no_translation_witness:
  "pendingTranslateRef (fst (step (TranslateSelection (js ''hello'')) hello_state))
   \<and> snd (step (TranslateSelection (js ''hello'')) hello_state) = []
   \<and> snd (step (TranslateSelection (js ''hello'')) (initial_state False None None None)) \<noteq> []"
  using repeated_selection_starts_no_translation by simp

lemma trim_hello_again: "trim (js ''hello!'') = js ''hello!''"
  by (simp add: trim_def js_def isWhiteSpace_def)

text \<open>
  The flag the repeated capture left set starts a translation at the next change of the
  source text, here an edit by the user.
\<close>

lemma stale_pending_flag_translates_on_edit:
  "snd (step (EditSource (js ''hello!'')) (hello_state\<lparr>pendingTranslateRef := True\<rparr>))
     = [translate \<lparr>req_text = js ''hello!'', req_source_lang = js ''auto'',
          req_target_lang = js ''Japanese'', req_provider = ollama,
          req_endpoint = js ''http://localhost:11434'', req_model = js ''llama3''\<rparr>]"
  by (simp add: hello_state_eq step_def auto_translate_def handleTranslate_def translate_text_def
        initial_state_def DEFAULT_SETTINGS_def trim_hello_again Let_def)
     (simp add: js_def)

subsection \<open>Shortcut rebinding\<close>






lemma map_key_inherited:
  "mapKeyToShortcutString (js ''constructor'') = Some (js ''function Object() { [native code] }'')"
  "mapKeyToShortcutString (js ''Numpad1'') = None"
  by (simp_all add: mapKeyToShortcutString_def UpperAZ_def Digit_def canonicalize_def specialMap_def
        Object_prototype_def native_function_def js_def)










subsection \<open>Independence of the two domains\<close>

lemma cancel_translation_only:
  "cancel_translation \<in> set (snd (step a s)) \<longleftrightarrow> a = ClickCancelTranslation"
  by (cases a) (auto simp: step_def handler_defs auto_translate_def Let_def split_beta
        split: option.splits if_splits)

lemma cancel_explanation_only:
  "cancel_explanation \<in> set (snd (step a s)) \<longleftrightarrow> a = ClickCancelExplanation"
  by (cases a) (auto simp: step_def handler_defs auto_translate_def Let_def split_beta
        split: option.splits if_splits)

text \<open>
  C6. Handling \<^verbatim>\<open>translation-cancelled\<close> changes at most the loading flag, the
  cancelling flag and the error message of the translation, and nothing of the
  explanation; handling \<^verbatim>\<open>explanation-cancelled\<close> changes at most the three
  corresponding fields of the explanation, and nothing of the translation. Of all the
  actions of the component, only the cancel action of the translation invokes
  \<^verbatim>\<open>cancel_translation\<close> and only the cancel action of the explanation invokes
  \<^verbatim>\<open>cancel_explanation\<close>.
\<close>

theorem cancellation_domains_independent:
  "fst (step TranslationCancelled s)
     = s\<lparr>isLoading := False, isCancelling := False,
         error := error (fst (step TranslationCancelled s))\<rparr>
   \<and> explanation_side (fst (step TranslationCancelled s)) = explanation_side s
   \<and> fst (step ExplanationCancelled s)
     = s\<lparr>isExplanationLoading := False, isExplanationCancelling := False,
         explanationError := explanationError (fst (step ExplanationCancelled s))\<rparr>
   \<and> translation_side (fst (step ExplanationCancelled s)) = translation_side s
   \<and> (cancel_translation \<in> set (snd (step a s))) = (a = ClickCancelTranslation)
   \<and> (cancel_explanation \<in> set (snd (step a s))) = (a = ClickCancelExplanation)"
  by (simp add: cancel_translation_only cancel_explanation_only)
     (simp add: step_def on_translation_cancelled_def on_explanation_cancelled_def
        explanation_side_def translation_side_def)


theorem cancellation_domains_independent_witness:
  "snd (step ClickCancelTranslation hello_state) = [cancel_translation]
   \<and> cancel_explanation \<notin> set (snd (step ClickCancelTranslation hello_state))
   \<and> explanation_side (fst (step TranslationCancelled hello_state)) = explanation_side hello_state
   \<and> translation_side (fst (step ExplanationCancelled hello_state)) = translation_side hello_state"
proof -
  have "snd (step ClickCancelTranslation hello_state) = [cancel_translation]"
    by (simp add: step_def handleCancelTranslation_def)
  with cancellation_domains_independent [of hello_state ClickCancelTranslation]
  show ?thesis by simp
qed

subsection \<open>Translation requests\<close>

lemma handleTranslate_invokes:
  "snd (handleTranslate arg s) =
     (if trim (translate_text arg s) = [] then []
      else [translate \<lparr>req_text = translate_text arg s, req_source_lang = js ''auto'',
              req_target_lang = targetLang (settings s), req_provider = provider (settings s),
              req_endpoint = endpoint (settings s), req_model = model (settings s)\<rparr>])"
  by (simp add: handleTranslate_def Let_def)

lemma handleTranslate_keeps:
  "sourceText (fst (handleTranslate arg s)) = sourceText s"
  "settings (fst (handleTranslate arg s)) = settings s"
  "history (fst (handleTranslate arg s)) = history s"
  by (simp_all add: handleTranslate_def Let_def)

lemma auto_translate_invokes:
  "snd (auto_translate s) =
     (if pendingTranslateRef s \<and> trim (sourceText s) \<noteq> []
      then [translate \<lparr>req_text = sourceText s, req_source_lang = js ''auto'',
              req_target_lang = targetLang (settings s), req_provider = provider (settings s),
              req_endpoint = endpoint (settings s), req_model = model (settings s)\<rparr>]
      else [])"
  by (auto simp: auto_translate_def handleTranslate_invokes translate_text_def trim_def)

lemma auto_translate_keeps:
  "sourceText (fst (auto_translate s)) = sourceText s"
  "settings (fst (auto_translate s)) = settings s"
  "history (fst (auto_translate s)) = history s"
  by (simp_all add: auto_translate_def handleTranslate_keeps)

lemma handle_translate_request:
  "translate req \<in> set (snd (handle a s)) \<Longrightarrow>
   req = \<lparr>req_text = sourceText s, req_source_lang = js ''auto'',
          req_target_lang = targetLang (settings s), req_provider = provider (settings s),
          req_endpoint = endpoint (settings s), req_model = model (settings s)\<rparr>
   \<and> trim (sourceText s) \<noteq> []
   \<and> sourceText (fst (handle a s)) = sourceText s \<and> settings (fst (handle a s)) = settings s"
proof (cases a)
  case (TextareaKeyDown e)
  assume "translate req \<in> set (snd (handle a s))"
  with TextareaKeyDown show ?thesis
    by (auto simp: handleKeyDown_def handleTranslate_invokes handleTranslate_keeps translate_text_def
          split: if_splits)
next
  case ClickTranslate
  assume "translate req \<in> set (snd (handle a s))"
  with ClickTranslate show ?thesis
    by (auto simp: handleTranslate_invokes handleTranslate_keeps translate_text_def split: if_splits)
qed (auto simp: handler_defs Let_def split: option.splits if_splits)

text \<open>
  C7. Every \<^verbatim>\<open>translate\<close> request a step of the component issues carries the text to
  translate (the source text of the moment, not blank), the source language \<open>auto\<close>, and
  the target language, provider, endpoint and model of the settings of the moment; so does
  the request of any call of \<^verbatim>\<open>handleTranslate\<close> whose text is not blank. The result of
  a completed request is a translated text with a detected language that may be null. The
  completion treats a null and a present detected language alike, and what it does with the
  result is this: it reads the translated text, and when that text is not blank it records
  it, with the text of the request and the target language, as the new first entry of the
  history; then it clears the loading flag.
\<close>

theorem translate_request_shape:
  "(translate req \<in> set (snd (step a s)) \<longrightarrow>
      req = \<lparr>req_text = sourceText (fst (step a s)), req_source_lang = js ''auto'',
             req_target_lang = targetLang (settings (fst (step a s))),
             req_provider = provider (settings (fst (step a s))),
             req_endpoint = endpoint (settings (fst (step a s))),
             req_model = model (settings (fst (step a s)))\<rparr>
      \<and> trim (req_text req) \<noteq> [])
   \<and> (trim (translate_text arg s) \<noteq> [] \<longrightarrow>
        snd (handleTranslate arg s) =
          [translate \<lparr>req_text = translate_text arg s, req_source_lang = js ''auto'',
             req_target_lang = targetLang (settings s), req_provider = provider (settings s),
             req_endpoint = endpoint (settings s), req_model = model (settings s)\<rparr>])
   \<and> step (TranslateSettled text st n1 n2 (Inr \<lparr>translated_text = t, detected_lang = hint\<rparr>)) s
       = step (TranslateSettled text st n1 n2 (Inr \<lparr>translated_text = t, detected_lang = None\<rparr>)) s
   \<and> step (TranslateSettled text st n1 n2 (Inr r)) s
       = ((if trim (translated_text r) = [] then s
           else s\<lparr>history :=
                    take 50 (\<lparr>item_id = Number_toString n1, item_sourceText = text,
                               item_translatedText = translated_text r,
                               item_targetLang = targetLang st, item_timestamp = n2\<rparr>
                             # history s)\<rparr>)
          \<lparr>isLoading := False\<rparr>, [])"
proof (intro conjI impI)
  assume req: "translate req \<in> set (snd (step a s))"
  show "req = \<lparr>req_text = sourceText (fst (step a s)), req_source_lang = js ''auto'',
             req_target_lang = targetLang (settings (fst (step a s))),
             req_provider = provider (settings (fst (step a s))),
             req_endpoint = endpoint (settings (fst (step a s))),
             req_model = model (settings (fst (step a s)))\<rparr>"
  proof (cases "sourceText (fst (handle a s)) \<noteq> sourceText s \<or> sets_settings a")
    case True
    then have st: "step a s = (fst (auto_translate (fst (handle a s))),
                     snd (handle a s) @ snd (auto_translate (fst (handle a s))))"
      by (simp add: step_def split_beta)
    from req st consider "translate req \<in> set (snd (handle a s))"
      | "translate req \<in> set (snd (auto_translate (fst (handle a s))))" by auto
    then show ?thesis
    proof cases
      case 1
      from handle_translate_request [OF 1] show ?thesis
        by (simp add: st auto_translate_keeps)
    next
      case 2
      then show ?thesis
        by (simp add: st auto_translate_keeps auto_translate_invokes split: if_splits)
    qed
  next
    case False
    then have st: "step a s = handle a s" by (simp add: step_def split_beta)
    with req have "translate req \<in> set (snd (handle a s))" by simp
    from handle_translate_request [OF this] show ?thesis by (simp add: st)
  qed
  show "trim (req_text req) \<noteq> []"
  proof (cases "sourceText (fst (handle a s)) \<noteq> sourceText s \<or> sets_settings a")
    case True
    then have st: "step a s = (fst (auto_translate (fst (handle a s))),
                     snd (handle a s) @ snd (auto_translate (fst (handle a s))))"
      by (simp add: step_def split_beta)
    from req st consider "translate req \<in> set (snd (handle a s))"
      | "translate req \<in> set (snd (auto_translate (fst (handle a s))))" by auto
    then show ?thesis
    proof cases
      case 1
      from handle_translate_request [OF 1] show ?thesis by simp
    next
      case 2
      then show ?thesis
        by (auto simp: auto_translate_invokes split: if_splits)
    qed
  next
    case False
    then have st: "step a s = handle a s" by (simp add: step_def split_beta)
    with req have "translate req \<in> set (snd (handle a s))" by simp
    from handle_translate_request [OF this] show ?thesis by simp
  qed
next
  assume "trim (translate_text arg s) \<noteq> []"
  then show "snd (handleTranslate arg s) =
          [translate \<lparr>req_text = translate_text arg s, req_source_lang = js ''auto'',
             req_target_lang = targetLang (settings s), req_provider = provider (settings s),
             req_endpoint = endpoint (settings s), req_model = model (settings s)\<rparr>]"
    by (simp add: handleTranslate_invokes)
next
  show "step (TranslateSettled text st n1 n2 (Inr \<lparr>translated_text = t, detected_lang = hint\<rparr>)) s
       = step (TranslateSettled text st n1 n2 (Inr \<lparr>translated_text = t, detected_lang = None\<rparr>)) s"
    by (simp add: step_translate_settled handleTranslate_settled_def)
next
  show "step (TranslateSettled text st n1 n2 (Inr r)) s
       = ((if trim (translated_text r) = [] then s
           else s\<lparr>history :=
                    take 50 (\<lparr>item_id = Number_toString n1, item_sourceText = text,
                               item_translatedText = translated_text r,
                               item_targetLang = targetLang st, item_timestamp = n2\<rparr>
                             # history s)\<rparr>)
          \<lparr>isLoading := False\<rparr>, [])"
    by (simp add: step_translate_settled handleTranslate_settled_def addToHistory_def)
qed


theorem translate_request_shape_witness:
  "translate \<lparr>req_text = js ''hello'', req_source_lang = js ''auto'',
       req_target_lang = js ''Japanese'', req_provider = ollama,
       req_endpoint = js ''http://localhost:11434'', req_model = js ''llama3''\<rparr>
     \<in> set (snd (step ClickTranslate hello_state))
   \<and> sourceText (fst (step ClickTranslate hello_state)) = js ''hello''
   \<and> settings (fst (step ClickTranslate hello_state)) = DEFAULT_SETTINGS False
   \<and> trim (translate_text None hello_state) \<noteq> []
   \<and> snd (handleTranslate None hello_state) =
        [translate \<lparr>req_text = js ''hello'', req_source_lang = js ''auto'',
           req_target_lang = js ''Japanese'', req_provider = ollama,
           req_endpoint = js ''http://localhost:11434'', req_model = js ''llama3''\<rparr>]
   \<and> hd (history (fst (step (TranslateSettled (js ''hello'') (DEFAULT_SETTINGS False) 1 1
          (Inr \<lparr>translated_text = js ''salut'', detected_lang = Some (js ''en'')\<rparr>)) hello_state)))
     = \<lparr>item_id = js ''1'', item_sourceText = js ''hello'', item_translatedText = js ''salut'',
        item_targetLang = js ''Japanese'', item_timestamp = 1\<rparr>"
proof -
  have inv: "snd (step ClickTranslate hello_state) =
        [translate \<lparr>req_text = js ''hello'', req_source_lang = js ''auto'',
           req_target_lang = js ''Japanese'', req_provider = ollama,
           req_endpoint = js ''http://localhost:11434'', req_model = js ''llama3''\<rparr>]"
    by (simp add: hello_state_eq step_def handleTranslate_def translate_text_def
          initial_state_def DEFAULT_SETTINGS_def trim_hello js_hello_nonempty Let_def)
  have ne: "trim (translate_text None hello_state) \<noteq> []"
    by (simp add: hello_state_eq translate_text_def trim_hello js_hello_nonempty)
  have st: "sourceText (fst (step ClickTranslate hello_state)) = js ''hello''"
       "settings (fst (step ClickTranslate hello_state)) = DEFAULT_SETTINGS False"
    by (simp_all add: hello_state_eq step_def handleTranslate_def translate_text_def
          initial_state_def trim_hello js_hello_nonempty Let_def)
  from inv ne st
    translate_request_shape
      [of "\<lparr>req_text = js ''hello'', req_source_lang = js ''auto'',
           req_target_lang = js ''Japanese'', req_provider = ollama,
           req_endpoint = js ''http://localhost:11434'', req_model = js ''llama3''\<rparr>"
          ClickTranslate hello_state None "js ''hello''" "DEFAULT_SETTINGS False" 1 1 _ _
          "\<lparr>translated_text = js ''salut'', detected_lang = Some (js ''en'')\<rparr>"]
  show ?thesis
    by (simp add: hello_state_eq translate_text_def initial_state_def DEFAULT_SETTINGS_def
          trim_salut Number_toString_def)
       (simp add: js_def)
qed

subsection \<open>History\<close>

lemma history_handle:
  "history (fst (handle a s)) =
     (case a of
        TranslateSettled text st n1 n2 result \<Rightarrow>
          history (handleTranslate_settled text st n1 n2 result s)
      | DeleteHistory ident \<Rightarrow> filter (\<lambda>item. item_id item \<noteq> ident) (history s)
      | ClearHistory \<Rightarrow> []
      | _ \<Rightarrow> history s)"
  by (cases a) (simp_all add: handler_defs Let_def split: option.splits sum.splits)

lemma history_step: "history (fst (step a s)) = history (fst (handle a s))"
  by (simp add: step_def split_beta auto_translate_keeps)

lemma length_history_step:
  "length (history s) \<le> 50 \<Longrightarrow> length (history (fst (step a s))) \<le> 50"
proof -
  assume bound: "length (history s) \<le> 50"
  have "length (filter P (history s)) \<le> 50" for P
    using bound le_trans [OF length_filter_le] by blast
  with bound have "length (history (fst (handle a s))) \<le> 50"
    unfolding history_handle
    by (simp add: handleTranslate_settled_def addToHistory_def split: Action.splits sum.splits)
  then show ?thesis by (simp add: history_step)
qed

text \<open>
  C8. After \<^verbatim>\<open>addToHistory\<close> the history has at most 50 entries, the new entry is the
  first one and the earlier entries follow it in their order. The settling of a
  translation changes the history only when the translation completed with a translated
  text that is not blank (and then by \<^verbatim>\<open>addToHistory\<close>); a completed translation whose
  text is blank leaves the history as it is.
\<close>

theorem history_bounded_newest_first:
  "length (history (addToHistory n1 n2 src tr lang s)) \<le> 50
   \<and> hd (history (addToHistory n1 n2 src tr lang s))
       = \<lparr>item_id = Number_toString n1, item_sourceText = src, item_translatedText = tr,
          item_targetLang = lang, item_timestamp = n2\<rparr>
   \<and> tl (history (addToHistory n1 n2 src tr lang s)) = take 49 (history s)
   \<and> (history (fst (step (TranslateSettled text st n1 n2 result) s)) \<noteq> history s \<longrightarrow>
        (\<exists>r. result = Inr r \<and> trim (translated_text r) \<noteq> []
             \<and> history (fst (step (TranslateSettled text st n1 n2 result) s))
                 = history (addToHistory n1 n2 text (translated_text r) (targetLang st) s)))
   \<and> (trim (translated_text r) = [] \<longrightarrow>
        history (fst (step (TranslateSettled text st n1 n2 (Inr r)) s)) = history s)"
proof (intro conjI)
  show "length (history (addToHistory n1 n2 src tr lang s)) \<le> 50"
    by (simp add: addToHistory_def)
  show "hd (history (addToHistory n1 n2 src tr lang s))
       = \<lparr>item_id = Number_toString n1, item_sourceText = src, item_translatedText = tr,
          item_targetLang = lang, item_timestamp = n2\<rparr>"
    by (simp add: addToHistory_def)
  have "take 50 (x # xs) = x # take 49 xs" for x :: HistoryItem and xs
    by (simp add: take_Cons')
  then show "tl (history (addToHistory n1 n2 src tr lang s)) = take 49 (history s)"
    by (simp add: addToHistory_def)
  show "history (fst (step (TranslateSettled text st n1 n2 result) s)) \<noteq> history s \<longrightarrow>
        (\<exists>r. result = Inr r \<and> trim (translated_text r) \<noteq> []
             \<and> history (fst (step (TranslateSettled text st n1 n2 result) s))
                 = history (addToHistory n1 n2 text (translated_text r) (targetLang st) s))"
    by (cases result) (auto simp: step_translate_settled handleTranslate_settled_def addToHistory_def)
  show "trim (translated_text r) = [] \<longrightarrow>
        history (fst (step (TranslateSettled text st n1 n2 (Inr r)) s)) = history s"
    by (simp add: step_translate_settled handleTranslate_settled_def)
qed


lemma trim_blank: "trim (js '' '') = []"
  by (simp add: trim_def js_def isWhiteSpace_def)

theorem history_bounded_newest_first_witness:
  "history (fst (step (TranslateSettled (js ''hello'') (DEFAULT_SETTINGS False) 1 1
        (Inr \<lparr>translated_text = js ''salut'', detected_lang = None\<rparr>)) hello_state))
     \<noteq> history hello_state
   \<and> history (fst (step (TranslateSettled (js ''hello'') (DEFAULT_SETTINGS False) 1 1
        (Inr \<lparr>translated_text = js ''salut'', detected_lang = None\<rparr>)) hello_state))
     = [\<lparr>item_id = js ''1'', item_sourceText = js ''hello'', item_translatedText = js ''salut'',
          item_targetLang = js ''Japanese'', item_timestamp = 1\<rparr>,
        \<lparr>item_id = js ''0'', item_sourceText = js ''hello'', item_translatedText = js ''salut'',
          item_targetLang = js ''Japanese'', item_timestamp = 0\<rparr>]
   \<and> trim (translated_text \<lparr>translated_text = js '' '', detected_lang = None\<rparr>) = []
   \<and> history (fst (step (TranslateSettled (js ''hello'') (DEFAULT_SETTINGS False) 1 1
        (Inr \<lparr>translated_text = js '' '', detected_lang = None\<rparr>)) hello_state))
     = history hello_state"
proof -
  have changed: "history (fst (step (TranslateSettled (js ''hello'') (DEFAULT_SETTINGS False) 1 1
        (Inr \<lparr>translated_text = js ''salut'', detected_lang = None\<rparr>)) hello_state))
     \<noteq> history hello_state"
    by (simp add: step_translate_settled handleTranslate_settled_def trim_salut addToHistory_def
          hello_state_eq initial_state_def) (simp add: js_def)
  have blank: "trim (translated_text \<lparr>translated_text = js '' '', detected_lang = None\<rparr>) = []"
    by (simp add: trim_blank)
  from changed blank
    history_bounded_newest_first [of 1 1 "js ''hello''" "js ''salut''" "js ''Japanese''" hello_state
           "js ''hello''" "DEFAULT_SETTINGS False"
           "Inr \<lparr>translated_text = js ''salut'', detected_lang = None\<rparr>"
           "\<lparr>translated_text = js '' '', detected_lang = None\<rparr>"]
  show ?thesis
    by (simp add: addToHistory_def hello_state_eq initial_state_def DEFAULT_SETTINGS_def
          Number_toString_def) (simp add: js_def)
qed

subsection \<open>Explanation cache\<close>

text \<open>
  C9. When the cached explanation was made for the current source text,
  \<^verbatim>\<open>handleExplain\<close> issues no \<^verbatim>\<open>explain\<close> request and displays the cached
  explanation; in particular a second call, after the first one resolved for the same
  source text, issues no request and displays the explanation of the first.
\<close>

theorem handleExplain_cached_idempotent:
  "(explanationCacheRef s = Some c \<and> cache_source c = sourceText s \<longrightarrow>
      handleExplain s = (s\<lparr>explanationText := cache_explanation c\<rparr>, []))
   \<and> (sourceText s = src \<longrightarrow>
      handleExplain (handleExplain_settled src (Inr ex) s)
        = ((handleExplain_settled src (Inr ex) s)\<lparr>explanationText := ex\<rparr>, []))"
  by (simp add: handleExplain_def handleExplain_settled_def)

theorem handleExplain_cached_idempotent_witness:
  "explanationCacheRef (hello_state\<lparr>explanationCacheRef :=
        Some \<lparr>cache_source = js ''hello'', cache_explanation = js ''a greeting''\<rparr>\<rparr>)
     = Some \<lparr>cache_source = js ''hello'', cache_explanation = js ''a greeting''\<rparr>
   \<and> cache_source \<lparr>cache_source = js ''hello'', cache_explanation = js ''a greeting''\<rparr>
     = sourceText (hello_state\<lparr>explanationCacheRef :=
        Some \<lparr>cache_source = js ''hello'', cache_explanation = js ''a greeting''\<rparr>\<rparr>)
   \<and> snd (handleExplain (hello_state\<lparr>explanationCacheRef :=
        Some \<lparr>cache_source = js ''hello'', cache_explanation = js ''a greeting''\<rparr>\<rparr>)) = []
   \<and> explanationText (fst (handleExplain (hello_state\<lparr>explanationCacheRef :=
        Some \<lparr>cache_source = js ''hello'', cache_explanation = js ''a greeting''\<rparr>\<rparr>)))
     = js ''a greeting''
   \<and> sourceText hello_state = js ''hello''
   \<and> snd (handleExplain (handleExplain_settled (js ''hello'') (Inr (js ''a greeting'')) hello_state))
     = []"
proof -
  have src: "sourceText hello_state = js ''hello''"
    by (simp add: hello_state_eq)
  from src
    handleExplain_cached_idempotent [of "hello_state\<lparr>explanationCacheRef :=
              Some \<lparr>cache_source = js ''hello'', cache_explanation = js ''a greeting''\<rparr>\<rparr>"
           "\<lparr>cache_source = js ''hello'', cache_explanation = js ''a greeting''\<rparr>"
           "js ''hello''" "js ''a greeting''"]
    handleExplain_cached_idempotent [of hello_state "\<lparr>cache_source = js ''hello'', cache_explanation = js ''a greeting''\<rparr>"
           "js ''hello''" "js ''a greeting''"]
  show ?thesis by simp
qed



section \<open>Properties of the section filter\<close>


lemma allNA_iff: "allNA sectionLines = not_applicable_section (heading, sectionLines)"
  by (auto simp: allNA_def not_applicable_section_def list_all_iff Let_def filter_empty_conv)

lemma collect_section_eq:
  "collect_section lines i sectionLines =
     (i + length (takeWhile (\<lambda>x. \<not> isHeading x) (drop i lines)),
      sectionLines @ takeWhile (\<lambda>x. \<not> isHeading x) (drop i lines))"
proof (induction lines i sectionLines rule: collect_section.induct)
  case (1 lines i sectionLines)
  show ?case
  proof (cases "i < length lines \<and> \<not> isHeading (lines ! i)")
    case True
    then have d: "drop i lines = lines ! i # drop (Suc i) lines"
      by (simp add: Cons_nth_drop_Suc)
    have "collect_section lines i sectionLines
            = collect_section lines (Suc i) (sectionLines @ [lines ! i])"
      using True by (subst collect_section.simps) simp
    also have "\<dots> = (Suc i + length (takeWhile (\<lambda>x. \<not> isHeading x) (drop (Suc i) lines)),
        (sectionLines @ [lines ! i]) @ takeWhile (\<lambda>x. \<not> isHeading x) (drop (Suc i) lines))"
      using "1.IH" True by blast
    finally show ?thesis using True by (simp add: d)
  next
    case False
    then have stop: "collect_section lines i sectionLines = (i, sectionLines)"
      by (subst collect_section.simps) auto
    show ?thesis
    proof (cases "i < length lines")
      case True
      with False have "isHeading (lines ! i)" by simp
      moreover from True have "drop i lines = lines ! i # drop (Suc i) lines"
        by (simp add: Cons_nth_drop_Suc)
      ultimately show ?thesis by (simp add: stop)
    next
      case False
      then show ?thesis by (simp add: stop)
    qed
  qed
qed

lemma takeWhile_dropWhile_Nil: "takeWhile P (dropWhile P xs) = []"
  by (induction xs) simp_all

lemma section_lines_pair: "section_lines (h, content) = h # content"
  by (simp add: section_lines_def)

lemma kept_lines_Nil: "kept_lines [] = []"
  by (simp add: kept_lines_def)

lemma kept_lines_plain:
  "\<not> isHeading l \<Longrightarrow> kept_lines (l # ls) = l # kept_lines ls"
  by (simp add: kept_lines_def)

lemma kept_lines_heading:
  "isHeading l \<Longrightarrow>
   kept_lines (l # ls) =
     (if not_applicable_section (l, takeWhile (\<lambda>x. \<not> isHeading x) ls) then []
      else l # takeWhile (\<lambda>x. \<not> isHeading x) ls)
     @ kept_lines (dropWhile (\<lambda>x. \<not> isHeading x) ls)"
  by (simp add: kept_lines_def takeWhile_dropWhile_Nil section_lines_pair)

lemma filter_loop_eq:
  "filter_loop lines i result = result @ kept_lines (drop i lines)"
proof (induction lines i result rule: filter_loop.induct)
  case (1 lines i result)
  let ?nh = "\<lambda>x. \<not> isHeading x"
  show ?case
  proof (cases "i < length lines")
    case False
    then show ?thesis
      by (subst filter_loop.simps) (simp add: kept_lines_Nil)
  next
    case True
    then have d: "drop i lines = lines ! i # drop (Suc i) lines"
      by (simp add: Cons_nth_drop_Suc)
    show ?thesis
    proof (cases "isHeading (lines ! i)")
      case False
      have "filter_loop lines i result = filter_loop lines (Suc i) (result @ [lines ! i])"
        using True False by (subst filter_loop.simps) simp
      also have "\<dots> = (result @ [lines ! i]) @ kept_lines (drop (Suc i) lines)"
        using "1.IH"(3) True False by blast
      finally show ?thesis
        using False by (simp add: d kept_lines_plain)
    next
      case heading: True
      define tw where "tw = takeWhile ?nh (drop (Suc i) lines)"
      define j where "j = Suc i + length tw"
      have cs: "collect_section lines (Suc i) [] = (j, tw)"
        by (simp add: collect_section_eq j_def tw_def)
      have dj: "drop j lines = dropWhile ?nh (drop (Suc i) lines)"
        by (simp add: j_def tw_def dropWhile_eq_drop add.commute)
      show ?thesis
      proof (cases "allNA tw")
        case False
        have "filter_loop lines i result = filter_loop lines j (result @ lines ! i # tw)"
          using True heading False cs by (subst filter_loop.simps) simp
        also have "\<dots> = (result @ lines ! i # tw) @ kept_lines (drop j lines)"
          using "1.IH"(1) [OF True heading refl cs [symmetric]] False by simp
        finally show ?thesis
          using heading False
          by (simp add: d kept_lines_heading dj tw_def [symmetric] allNA_iff [of tw "lines ! i", symmetric])
      next
        case na: True
        have "filter_loop lines i result = filter_loop lines j result"
          using True heading na cs by (subst filter_loop.simps) simp
        also have "\<dots> = result @ kept_lines (drop j lines)"
          using "1.IH"(2) [OF True heading refl cs [symmetric]] na by simp
        finally show ?thesis
          using heading na
          by (simp add: d kept_lines_heading dj tw_def [symmetric] allNA_iff [of tw "lines ! i", symmetric])
      qed
    qed
  qed
qed

text \<open>
  The sections of the specification, with the lines before the first heading, are all the
  lines; a section starts with a heading and has no heading among its content lines.
\<close>

lemma sections_cover:
  "takeWhile (\<lambda>x. \<not> isHeading x) lines @ concat (map section_lines (sections lines)) = lines"
proof (induction lines rule: sections.induct)
  case 1
  show ?case by simp
next
  case (2 l ls)
  show ?case
  proof (cases "isHeading l")
    case True
    from "2.IH"(1) [OF True]
    have "concat (map section_lines (sections (dropWhile (\<lambda>x. \<not> isHeading x) ls)))
            = dropWhile (\<lambda>x. \<not> isHeading x) ls"
      by (simp add: takeWhile_dropWhile_Nil)
    with True show ?thesis
      by (simp add: section_lines_pair)
  next
    case False
    with "2.IH"(2) show ?thesis by simp
  qed
qed

lemma sections_shape:
  "(h, content) \<in> set (sections lines) \<Longrightarrow> isHeading h \<and> (\<forall>l \<in> set content. \<not> isHeading l)"
proof (induction lines rule: sections.induct)
  case 1
  then show ?case by simp
next
  case (2 l ls)
  show ?case
  proof (cases "isHeading l")
    case True
    with "2.prems" consider "h = l" "content = takeWhile (\<lambda>x. \<not> isHeading x) ls"
      | "(h, content) \<in> set (sections (dropWhile (\<lambda>x. \<not> isHeading x) ls))"
      by auto
    then show ?thesis
    proof cases
      case 1
      with True show ?thesis by (auto dest: set_takeWhileD)
    next
      case 2
      with "2.IH"(1) [OF True] show ?thesis by blast
    qed
  next
    case False
    with "2.prems" have "(h, content) \<in> set (sections ls)" by simp
    with "2.IH"(2) [OF False] show ?thesis by blast
  qed
qed

lemmas regex_eval = js_def LF_def canonicalize_def isWhiteSpace_def isLineTerminator_def

lemma js_eq_Nil: "(js s = []) = (s = [])"
  by (simp add: js_def)


lemma NA_PATTERNS_examples: "NA_PATTERNS_test (js ''None.'')" "NA_PATTERNS_test (js ''n/a'')"
  "NA_PATTERNS_test (js ''- No slang found.'')" "NA_PATTERNS_test [0x8A72, 0x5F53, 0x306A, 0x3057]"
  "\<not> NA_PATTERNS_test (js ''None of these'')"
  by (simp_all add: NA_PATTERNS_test_def NA_PATTERNS_def NA_alternatives_def regex_eval)

text \<open>
  C10, amended. \<^verbatim>\<open>filterEmptySections\<close> keeps, in their order, the lines before the
  first heading and the lines of every section that has a content line which is neither
  blank nor, trimmed, a match of the not-applicable patterns; it removes the other sections,
  heading and content; and the text it returns is these lines joined by newlines and then
  trimmed: the white space at the start and at the end of the whole result is removed.
\<close>

theorem filterEmptySections_keeps_trimmed_lines: "filterEmptySections markdown = trim (join [LF] (kept_lines (split_lines markdown)))"
  by (simp add: filterEmptySections_def filter_loop_eq)

lemma example_lines:
  "split_lines (js ''Intro'' @ LF # js ''## Slang'' @ LF # js ''None.'' @ LF # js ''## Words''
      @ LF # js ''hi: a greeting'')
   = [js ''Intro'', js ''## Slang'', js ''None.'', js ''## Words'', js ''hi: a greeting'']"
  by (simp add: js_def LF_def)

lemma example_headings:
  "\<not> isHeading (js ''Intro'')" "isHeading (js ''## Slang'')" "\<not> isHeading (js ''None.'')"
  "isHeading (js ''## Words'')" "\<not> isHeading (js ''hi: a greeting'')"
  by (simp_all add: isHeading_def regex_eval)

lemma example_tests:
  "trim (js ''None.'') = js ''None.''" "NA_PATTERNS_test (js ''None.'')"
  "trim (js ''hi: a greeting'') = js ''hi: a greeting''"
  "\<not> NA_PATTERNS_test (js ''hi: a greeting'')"
  by (simp_all add: trim_def NA_PATTERNS_test_def NA_PATTERNS_def NA_alternatives_def regex_eval)

lemma example_kept:
  "kept_lines [js ''Intro'', js ''## Slang'', js ''None.'', js ''## Words'', js ''hi: a greeting'']
   = [js ''Intro'', js ''## Words'', js ''hi: a greeting'']"
  by (simp add: kept_lines_def example_headings not_applicable_section_def example_tests
        section_lines_pair js_eq_Nil)

theorem filterEmptySections_keeps_trimmed_lines_witness:
  "filterEmptySections (js ''Intro'' @ LF # js ''## Slang'' @ LF # js ''None.'' @ LF # js ''## Words''
      @ LF # js ''hi: a greeting'')
   = js ''Intro'' @ LF # js ''## Words'' @ LF # js ''hi: a greeting''"
  using filterEmptySections_keeps_trimmed_lines [of "js ''Intro'' @ LF # js ''## Slang'' @ LF # js ''None.'' @ LF # js ''## Words''
      @ LF # js ''hi: a greeting''"]
  by (simp add: example_lines example_kept) (simp add: trim_def js_def LF_def isWhiteSpace_def)

lemma indented_lines:
  "split_lines (js ''  x'' @ LF # js ''## A'' @ LF # js ''y'') = [js ''  x'', js ''## A'', js ''y'']"
  by (simp add: js_def LF_def)

lemma indented_headings:
  "\<not> isHeading (js ''  x'')" "isHeading (js ''## A'')" "\<not> isHeading (js ''y'')"
  by (simp_all add: isHeading_def regex_eval)

lemma indented_tests: "trim (js ''y'') = js ''y''" "\<not> NA_PATTERNS_test (js ''y'')"
  by (simp_all add: trim_def NA_PATTERNS_test_def NA_PATTERNS_def NA_alternatives_def regex_eval)

lemma indented_kept:
  "kept_lines [js ''  x'', js ''## A'', js ''y''] = [js ''  x'', js ''## A'', js ''y'']"
  by (simp add: kept_lines_def indented_headings not_applicable_section_def indented_tests
        section_lines_pair js_eq_Nil)

text \<open>
  C10 as it is stated has every kept line preserved. The trimming of the result breaks
  this for a first line that is indented: the line \<open>  x\<close> before the first heading is to
  be kept, and the first line of the result is \<open>x\<close>.
\<close>

theorem filterEmptySections_first_line_not_preserved:
  "kept_lines (split_lines (js ''  x'' @ LF # js ''## A'' @ LF # js ''y''))
     = [js ''  x'', js ''## A'', js ''y'']
   \<and> split_lines (filterEmptySections (js ''  x'' @ LF # js ''## A'' @ LF # js ''y''))
     = [js ''x'', js ''## A'', js ''y'']
   \<and> filterEmptySections (js ''  x'' @ LF # js ''## A'' @ LF # js ''y'')
     \<noteq> join [LF] (kept_lines (split_lines (js ''  x'' @ LF # js ''## A'' @ LF # js ''y'')))"
proof -
  have out: "filterEmptySections (js ''  x'' @ LF # js ''## A'' @ LF # js ''y'')
               = js ''x'' @ LF # js ''## A'' @ LF # js ''y''"
    by (simp add: filterEmptySections_def filter_loop_eq indented_lines indented_kept)
       (simp add: trim_def js_def LF_def isWhiteSpace_def)
  have "split_lines (js ''x'' @ LF # js ''## A'' @ LF # js ''y'') = [js ''x'', js ''## A'', js ''y'']"
    by (simp add: js_def LF_def)
  moreover have "js ''x'' @ LF # js ''## A'' @ LF # js ''y''
                   \<noteq> join [LF] [js ''  x'', js ''## A'', js ''y'']"
    by (simp add: js_def LF_def)
  ultimately show ?thesis by (simp add: out indented_lines indented_kept)
qed


section \<open>Properties of the wire decoder\<close>

lemma line_of_append:
  "NL \<in> set a \<Longrightarrow> takeWhile (\<lambda>b. b \<noteq> NL) (a @ c) = takeWhile (\<lambda>b. b \<noteq> NL) a"
  by (simp add: takeWhile_append1 [of NL])

lemma rest_of_append:
  "NL \<in> set a \<Longrightarrow>
   tl (dropWhile (\<lambda>b. b \<noteq> NL) (a @ c)) = tl (dropWhile (\<lambda>b. b \<noteq> NL) a) @ c"
proof -
  assume nl: "NL \<in> set a"
  then have "dropWhile (\<lambda>b. b \<noteq> NL) (a @ c) = dropWhile (\<lambda>b. b \<noteq> NL) a @ c"
    by (simp add: dropWhile_append1 [of NL])
  moreover from nl have "dropWhile (\<lambda>b. b \<noteq> NL) a \<noteq> []" by simp
  ultimately show ?thesis by simp
qed

lemma drain_no_newline: "NL \<notin> set acc \<Longrightarrow> drain parse acc = ([], acc, False)"
  by (subst drain.simps) simp

text \<open>What is left of the accumulator, when no final line was met, holds no newline.\<close>

lemma drain_rest_no_newline:
  "drain parse acc = (events, acc', False) \<Longrightarrow> NL \<notin> set acc'"
proof (induction parse acc arbitrary: events rule: drain.induct)
  case (1 parse acc)
  show ?case
  proof (cases "NL \<in> set acc")
    case False
    with "1.prems" show ?thesis by (simp add: drain_no_newline)
  next
    case True
    define line where "line = takeWhile (\<lambda>b. b \<noteq> NL) acc @ [NL]"
    define rest where "rest = tl (dropWhile (\<lambda>b. b \<noteq> NL) acc)"
    show ?thesis
    proof (cases "parse line")
      case None
      with True "1.prems" have "drain parse rest = (events, acc', False)"
        by (subst (asm) drain.simps) (simp add: line_def rest_def)
      with "1.IH"(1) [OF True line_def rest_def None] show ?thesis by blast
    next
      case (Some obj)
      show ?thesis
      proof (cases "line_done obj")
        case True
        with \<open>NL \<in> set acc\<close> Some "1.prems" show ?thesis
          by (subst (asm) drain.simps) (simp add: line_def rest_def)
      next
        case False
        obtain ev a f where d: "drain parse rest = (ev, a, f)"
          by (cases "drain parse rest") auto
        with \<open>NL \<in> set acc\<close> Some False "1.prems" have "f = False" "a = acc'"
          by (subst (asm) drain.simps, simp add: line_def rest_def)+
        with d "1.IH"(2) [OF \<open>NL \<in> set acc\<close> line_def rest_def Some False] show ?thesis
          by blast
      qed
    qed
  qed
qed

text \<open>Scanning an accumulator to which more bytes were appended.\<close>

lemma drain_append:
  "drain parse (a @ c) =
     (case drain parse a of
        (events, acc', fin) \<Rightarrow>
          if fin then (events, acc' @ c, True)
          else (case drain parse (acc' @ c) of
                  (events2, acc2, fin2) \<Rightarrow> (events @ events2, acc2, fin2)))"
proof (induction parse a rule: drain.induct)
  case (1 parse a)
  show ?case
  proof (cases "NL \<in> set a")
    case False
    then show ?thesis by (simp add: drain_no_newline split: prod.splits)
  next
    case True
    define line where "line = takeWhile (\<lambda>b. b \<noteq> NL) a @ [NL]"
    define rest where "rest = tl (dropWhile (\<lambda>b. b \<noteq> NL) a)"
    from True have nl2: "NL \<in> set (a @ c)" by simp
    have line2: "takeWhile (\<lambda>b. b \<noteq> NL) (a @ c) @ [NL] = line"
      using True by (simp add: line_def line_of_append)
    have rest2: "tl (dropWhile (\<lambda>b. b \<noteq> NL) (a @ c)) = rest @ c"
      using True by (simp add: rest_def rest_of_append)
    show ?thesis
    proof (cases "parse line")
      case None
      have "drain parse (a @ c) = drain parse (rest @ c)"
        using nl2 None by (subst drain.simps) (simp add: line2 rest2)
      moreover have "drain parse a = drain parse rest"
        using True None by (subst drain.simps) (simp add: line_def rest_def)
      ultimately show ?thesis
        using "1.IH"(1) [OF True line_def rest_def None] by simp
    next
      case (Some obj)
      show ?thesis
      proof (cases "line_done obj")
        case True
        have "drain parse (a @ c) = ([End], rest @ c, True)"
          using nl2 Some True by (subst drain.simps) (simp add: line2 rest2)
        moreover have "drain parse a = ([End], rest, True)"
          using \<open>NL \<in> set a\<close> Some True by (subst drain.simps) (simp add: line_def rest_def)
        ultimately show ?thesis by simp
      next
        case False
        have "drain parse (a @ c) =
                (case drain parse (rest @ c) of
                   (events, acc', fin) \<Rightarrow> (Token (line_response obj) # events, acc', fin))"
          using nl2 Some False by (subst drain.simps) (simp add: line2 rest2)
        moreover have "drain parse a =
                (case drain parse rest of
                   (events, acc', fin) \<Rightarrow> (Token (line_response obj) # events, acc', fin))"
          using \<open>NL \<in> set a\<close> Some False by (subst drain.simps) (simp add: line_def rest_def)
        ultimately show ?thesis
          using "1.IH"(2) [OF \<open>NL \<in> set a\<close> line_def rest_def Some False]
          by (simp split: prod.splits)
      qed
    qed
  qed
qed

lemma feed_all_finished: "finished st \<Longrightarrow> feed_all parse chunks st = (st, [])"
  by (induction chunks) (simp_all add: feed_def)

text \<open>
  The events of a session depend on the chunks only through their concatenation: they are
  the events of one scan of all the bytes.
\<close>

lemma feed_all_drain:
  "NL \<notin> set (accumulator st) \<Longrightarrow> \<not> finished st \<Longrightarrow>
   feed_all parse chunks st = (st', events) \<Longrightarrow>
   drain parse (accumulator st @ concat chunks) = (e, a, f) \<Longrightarrow>
   events = e \<and> finished st' = f \<and>
   (\<not> f \<longrightarrow> accumulator st' = a \<and> received st' = (received st \<or> concat chunks \<noteq> []))"
proof (induction chunks arbitrary: st st' events e a f)
  case Nil
  then show ?case by (simp add: drain_no_newline)
next
  case (Cons chunk chunks)
  obtain e1 a1 f1 where d1: "drain parse (accumulator st @ chunk) = (e1, a1, f1)"
    by (cases "drain parse (accumulator st @ chunk)") auto
  define st1 where
    "st1 = \<lparr>accumulator = a1, finished = f1, received = (received st \<or> chunk \<noteq> [])\<rparr>"
  have f1: "feed parse chunk st = (st1, e1)"
    using Cons.prems(2) d1 by (simp add: feed_def st1_def)
  have whole: "drain parse ((accumulator st @ chunk) @ concat chunks) = (e, a, f)"
    using Cons.prems(4) by simp
  show ?case
  proof (cases f1)
    case True
    then have "finished st1" by (simp add: st1_def)
    then have "feed_all parse chunks st1 = (st1, [])" by (rule feed_all_finished)
    with f1 Cons.prems(3) have "st' = st1" "events = e1" by simp_all
    moreover from whole d1 True have "e = e1" "f = True"
      using drain_append [of parse "accumulator st @ chunk" "concat chunks"] by simp_all
    ultimately show ?thesis using True by (simp add: st1_def)
  next
    case False
    with d1 have nl: "NL \<notin> set (accumulator st1)"
      using drain_rest_no_newline [of parse "accumulator st @ chunk" e1 a1] by (simp add: st1_def)
    from False have nf: "\<not> finished st1" by (simp add: st1_def)
    obtain st2 e2 where f2: "feed_all parse chunks st1 = (st2, e2)"
      by (cases "feed_all parse chunks st1") auto
    obtain e' a' f' where d2: "drain parse (accumulator st1 @ concat chunks) = (e', a', f')"
      by (cases "drain parse (accumulator st1 @ concat chunks)") auto
    from Cons.IH [OF nl nf f2 d2]
    have ih: "e2 = e'" "finished st2 = f'"
      "\<not> f' \<longrightarrow> accumulator st2 = a' \<and> received st2 = (received st1 \<or> concat chunks \<noteq> [])"
      by simp_all
    from f1 f2 Cons.prems(3) have res: "st' = st2" "events = e1 @ e2" by simp_all
    from whole d1 False d2 have "e = e1 @ e'" "a = a'" "f = f'"
      using drain_append [of parse "accumulator st @ chunk" "concat chunks"]
      by (simp_all add: st1_def)
    with ih res show ?thesis by (auto simp: st1_def)
  qed
qed

lemma decode_eq:
  "decode parse chunks =
     (case drain parse (concat chunks) of
        (events, acc, fin) \<Rightarrow>
          if fin then Inr events
          else if concat chunks \<noteq> [] then Inr (events @ [End])
          else Inl NoBytesReceived)"
proof -
  obtain st events where fa: "feed_all parse chunks decoder_start = (st, events)"
    by (cases "feed_all parse chunks decoder_start") auto
  obtain e a f where d: "drain parse (accumulator decoder_start @ concat chunks) = (e, a, f)"
    by (cases "drain parse (accumulator decoder_start @ concat chunks)") auto
  have "NL \<notin> set (accumulator decoder_start)" "\<not> finished decoder_start"
    by (simp_all add: decoder_start_def)
  from feed_all_drain [OF this fa d]
  have "events = e" "finished st = f" "\<not> f \<longrightarrow> received st = (concat chunks \<noteq> [])"
    by (simp_all add: decoder_start_def)
  with fa d show ?thesis
    by (auto simp: decode_def decoder_start_def)
qed

text \<open>
  C2. However the bytes of a response body are split into delivery chunks, the decoder
  produces the events (the token texts in their order, and the final \<open>End\<close>) it produces
  when the whole body is delivered as one chunk. This holds for every body and every JSON
  parser, so for the valid bodies too.
\<close>

theorem ollama_decoder_chunk_invariant: "decode parse chunks = decode parse [concat chunks]"
proof -
  have "concat [concat chunks] = concat chunks" by simp
  then show ?thesis
    using decode_eq [of parse chunks] decode_eq [of parse "[concat chunks]"]
    by (simp cong: if_cong prod.case_cong)
qed

lemma example_decode:
  "decode example_parse example_chunks = Inr [Token (bytes ''Hello''), Token (bytes '' world''), End]"
  by (simp add: decode_def example_chunks_def decoder_start_def feed_def drain.simps example_parse_def
        bytes_def NL_def)

theorem ollama_decoder_chunk_invariant_witness:
  "decode example_parse example_chunks
     = Inr [Token (bytes ''Hello''), Token (bytes '' world''), End]
   \<and> decode example_parse [concat example_chunks]
     = Inr [Token (bytes ''Hello''), Token (bytes '' world''), End]"
  using ollama_decoder_chunk_invariant [of example_parse example_chunks] example_decode
  by simp

end
